theory Spec2Isabelle
  imports Complex_Main "HOL-Library.Log_Nat"
begin

section \<open>The database schema (shared/schema.ts)\<close>

text \<open>
  Every table of \<^verbatim>\<open>shared/schema.ts\<close> is a list of rows in insertion order. A row is a
  record; a nullable column is an \<open>option\<close>. Primary keys are produced by
  \<^verbatim>\<open>gen_random_uuid()\<close>; the model takes a key that the table does not hold yet.
  Columns that no route of \<^verbatim>\<open>server/routes.ts\<close> writes except through their insert
  value and that no route branches on (\<^verbatim>\<open>bio\<close>, \<^verbatim>\<open>avatarUrl\<close>, \<^verbatim>\<open>isAdmin\<close>,
  \<^verbatim>\<open>isVerified\<close>, the users' wallet columns, the videos' media, share, flag and revenue
  columns, the text of comments and notifications, \<^verbatim>\<open>createdAt\<close>, \<^verbatim>\<open>updatedAt\<close>) are left
  out of the rows, and so is the table \<^verbatim>\<open>video_views\<close>, which no route touches. Insertion
  order stands for \<^verbatim>\<open>createdAt\<close>. The integer counters are unbounded integers.
\<close>

type_synonym uuid = nat

record user =
  u_id :: uuid
  email :: string
  username :: string
  password :: string
  displayName :: "string option"
  isBanned :: "bool option"
  totalEarnings :: "rat option"
  availableBalance :: "rat option"
  withdrawnAmount :: "rat option"
  followerCount :: "int option"
  followingCount :: "int option"

record video =
  v_id :: uuid
  v_userId :: uuid
  viewCount :: "int option"
  likeCount :: "int option"
  commentCount :: "int option"
  adImpressions :: "int option"
  isPublished :: "bool option"
  isDeleted :: "bool option"

record like =
  l_id :: uuid
  l_userId :: uuid
  l_videoId :: uuid

record comment =
  c_id :: uuid
  c_userId :: uuid
  c_videoId :: uuid
  parentId :: "uuid option"
  c_isDeleted :: "bool option"

record follow =
  f_id :: uuid
  followerId :: uuid
  followingId :: uuid

record withdrawal =
  w_id :: uuid
  w_userId :: uuid
  amount :: rat
  walletAddress :: string
  network :: string
  status :: string
  txHash :: "string option"
  adminNotes :: "string option"
  processedAt :: "nat option"

record notification =
  n_id :: uuid
  n_userId :: uuid
  n_type :: string
  title :: string
  isRead :: "bool option"

record db =
  users :: "user list"
  videos :: "video list"
  likes :: "like list"
  comments :: "comment list"
  follows :: "follow list"
  withdrawals :: "withdrawal list"
  notifications :: "notification list"

definition gen_random_uuid :: "uuid list \<Rightarrow> uuid" where
  "gen_random_uuid ks = Suc (fold max ks 0)"

subsection \<open>Decimal columns\<close>

text \<open>
  The money columns are \<^verbatim>\<open>decimal(precision: 18, scale: 8)\<close>. A value written to such a
  column is rounded to eight fractional digits (ties away from zero) and rejected when
  the rounded value needs more than ten integer digits. The driver hands a column to the
  handler as its decimal text and sends a number to the database as the text
  \<^verbatim>\<open>toString\<close> gives; the arithmetic of the SQL statements is exact.
\<close>

definition round_scale8 :: "rat \<Rightarrow> rat" where
  "round_scale8 x =
     (if 0 \<le> x then of_int \<lfloor>x * 100000000 + 1 / 2\<rfloor> / 100000000
      else - (of_int \<lfloor>- x * 100000000 + 1 / 2\<rfloor> / 100000000))"

definition fits_precision18 :: "rat \<Rightarrow> bool" where
  "fits_precision18 x \<longleftrightarrow> \<bar>round_scale8 x\<bar> < 10000000000"

definition store_decimal :: "rat \<Rightarrow> string + rat" where
  "store_decimal x =
     (if fits_precision18 x then Inr (round_scale8 x) else Inl ''numeric field overflow'')"

subsection \<open>JavaScript numbers\<close>

text \<open>
  A number of the handler is an IEEE 754 double. \<open>to_double\<close> is the double that a decimal
  text denotes: the nearest value with a significand of 53 bits, ties to the even
  significand, with the subnormal step \<open>2 ^ - 1074\<close> below \<open>2 ^ - 1022\<close>. (A text beyond
  the largest double denotes \<^verbatim>\<open>Infinity\<close>; no column and no printed number is such a
  text, and the function is not used there.) \<^verbatim>\<open>parseFloat(x?.toString() || "0")\<close> reads
  a column: null gives 0.
\<close>

definition pow2 :: "int \<Rightarrow> rat" where
  "pow2 e = (if 0 \<le> e then 2 ^ nat e else 1 / 2 ^ nat (- e))"

definition floor_log2 :: "rat \<Rightarrow> int" where
  "floor_log2 a =
     (let e0 = bitlen (fst (quotient_of a)) - bitlen (snd (quotient_of a))
      in if pow2 e0 \<le> a then e0 else e0 - 1)"

definition round_half_even :: "rat \<Rightarrow> int" where
  "round_half_even y =
     (let f = \<lfloor>y\<rfloor>; r = y - of_int f
      in if r < 1 / 2 then f else if 1 / 2 < r then f + 1 else if even f then f else f + 1)"

definition to_double :: "rat \<Rightarrow> rat" where
  "to_double x =
     (if x = 0 then 0
      else
        let a = \<bar>x\<bar>; q = max (floor_log2 a) (- 1022) - 52
        in sgn x * (of_int (round_half_even (a / pow2 q)) * pow2 q))"

definition parseFloat :: "rat option \<Rightarrow> rat" where
  "parseFloat x = (case x of None \<Rightarrow> 0 | Some v \<Rightarrow> to_double v)"

section \<open>Awaited database statements and the handlers' try/catch\<close>

text \<open>
  A handler is a sequence of awaited statements inside \<^verbatim>\<open>try { ... } catch\<close>. A statement
  may reject: because of the data (a foreign key, a not-null column, an overflow), or
  because the database fails under it. The second is the environment's choice: the
  argument \<open>Some n\<close> says that the statement with index \<open>n\<close> (counted from 0 among the
  statements this request executes) rejects, \<open>None\<close> that none does. What was written
  before a rejection stays written: no route opens a transaction.
\<close>

datatype 'a outcome = Throw string db | Ok 'a "nat option" db

type_synonym 'a dbm = "nat option \<Rightarrow> db \<Rightarrow> 'a outcome"

definition ret :: "'a \<Rightarrow> 'a dbm" where
  "ret a k s = Ok a k s"

definition throw :: "string \<Rightarrow> 'a dbm" where
  "throw e k s = Throw e s"

definition bnd :: "'a dbm \<Rightarrow> ('a \<Rightarrow> 'b dbm) \<Rightarrow> 'b dbm" where
  "bnd m f k s = (case m k s of Throw e s' \<Rightarrow> Throw e s' | Ok a k' s' \<Rightarrow> f a k' s')"

definition await :: "(db \<Rightarrow> string + 'a \<times> db) \<Rightarrow> 'a dbm" where
  "await q k s =
     (if k = Some 0 then Throw ''database error'' s
      else case q s of
             Inl e \<Rightarrow> Throw e s
           | Inr (a, s') \<Rightarrow> Ok a (map_option (\<lambda>n. n - 1) k) s')"

definition query :: "(db \<Rightarrow> 'a) \<Rightarrow> 'a dbm" where
  "query f = await (\<lambda>s. Inr (f s, s))"

subsection \<open>Responses\<close>

datatype body =
    Message string
  | AuthUser user
  | Videos "video list"
  | VideoRow video
  | Liked bool
  | Comments "comment list"
  | CommentRow comment
  | Stats int int
  | EarningsStats int int rat rat rat rat
  | Profile user bool
  | Following bool
  | Notifications "notification list"
  | Success
  | Withdrawals "withdrawal list"
  | WithdrawalRow withdrawal

record response =
  code :: nat
  json :: body

definition respond :: "nat \<Rightarrow> body \<Rightarrow> response dbm" where
  "respond c b = ret \<lparr>code = c, json = b\<rparr>"

definition handle :: "response dbm \<Rightarrow> nat option \<Rightarrow> db \<Rightarrow> response \<times> db" where
  "handle m k s =
     (case m k s of
        Throw e s' \<Rightarrow> (\<lparr>code = 500, json = Message e\<rparr>, s')
      | Ok r k' s' \<Rightarrow> (r, s'))"

definition requireAuth :: "uuid option \<Rightarrow> (uuid \<Rightarrow> response dbm) \<Rightarrow> response dbm" where
  "requireAuth sess next =
     (case sess of
        None \<Rightarrow> respond 401 (Message ''Unauthorized'')
      | Some userId \<Rightarrow> next userId)"

section \<open>Statements\<close>

text \<open>
  The queries and writes that the routes await. A write returns the row it inserted
  (\<^verbatim>\<open>.returning()\<close>) or nothing, and the new database; it rejects with a message when a
  constraint of the schema refuses it.
\<close>

definition find_user :: "uuid \<Rightarrow> db \<Rightarrow> user option" where
  "find_user i s = find (\<lambda>u. u_id u = i) (users s)"

definition find_video :: "uuid \<Rightarrow> db \<Rightarrow> video option" where
  "find_video i s = find (\<lambda>v. v_id v = i) (videos s)"

definition update_users :: "(user \<Rightarrow> bool) \<Rightarrow> (user \<Rightarrow> user) \<Rightarrow> db \<Rightarrow> string + unit \<times> db" where
  "update_users p f s = Inr ((), s\<lparr>users := map (\<lambda>u. if p u then f u else u) (users s)\<rparr>)"

definition update_videos :: "(video \<Rightarrow> bool) \<Rightarrow> (video \<Rightarrow> video) \<Rightarrow> db \<Rightarrow> string + unit \<times> db" where
  "update_videos p f s = Inr ((), s\<lparr>videos := map (\<lambda>v. if p v then f v else v) (videos s)\<rparr>)"

definition insert_user ::
  "string \<Rightarrow> string \<Rightarrow> string \<Rightarrow> string \<Rightarrow> db \<Rightarrow> string + user \<times> db" where
  "insert_user e un pw dn s =
     (if \<exists>u \<in> set (users s). email u = e \<or> username u = un
      then Inl ''duplicate key value violates unique constraint''
      else
        let row = \<lparr>u_id = gen_random_uuid (map u_id (users s)), email = e, username = un,
                   password = pw, displayName = Some dn, isBanned = Some False,
                   totalEarnings = Some 0, availableBalance = Some 0,
                   withdrawnAmount = Some 0, followerCount = Some 0,
                   followingCount = Some 0\<rparr>
        in Inr (row, s\<lparr>users := users s @ [row]\<rparr>))"

definition insert_video :: "uuid \<Rightarrow> db \<Rightarrow> string + video \<times> db" where
  "insert_video userId s =
     (if find_user userId s = None then Inl ''foreign key violation''
      else
        let row = \<lparr>v_id = gen_random_uuid (map v_id (videos s)), v_userId = userId,
                   viewCount = Some 0, likeCount = Some 0, commentCount = Some 0,
                   adImpressions = Some 0, isPublished = Some True, isDeleted = Some False\<rparr>
        in Inr (row, s\<lparr>videos := videos s @ [row]\<rparr>))"

definition insert_like :: "uuid \<Rightarrow> uuid \<Rightarrow> db \<Rightarrow> string + unit \<times> db" where
  "insert_like userId videoId s =
     (if find_user userId s = None \<or> find_video videoId s = None
      then Inl ''foreign key violation''
      else Inr ((), s\<lparr>likes := likes s @
             [\<lparr>l_id = gen_random_uuid (map l_id (likes s)), l_userId = userId,
               l_videoId = videoId\<rparr>]\<rparr>))"

definition delete_like :: "uuid \<Rightarrow> db \<Rightarrow> string + unit \<times> db" where
  "delete_like i s = Inr ((), s\<lparr>likes := filter (\<lambda>l. l_id l \<noteq> i) (likes s)\<rparr>)"

definition insert_comment :: "uuid \<Rightarrow> uuid \<Rightarrow> uuid option \<Rightarrow> db \<Rightarrow> string + comment \<times> db" where
  "insert_comment userId videoId parent s =
     (if find_user userId s = None \<or> find_video videoId s = None
      then Inl ''foreign key violation''
      else
        let row = \<lparr>c_id = gen_random_uuid (map c_id (comments s)), c_userId = userId,
                   c_videoId = videoId, parentId = parent, c_isDeleted = Some False\<rparr>
        in Inr (row, s\<lparr>comments := comments s @ [row]\<rparr>))"

definition insert_follow :: "uuid \<Rightarrow> uuid \<Rightarrow> db \<Rightarrow> string + unit \<times> db" where
  "insert_follow follower following s =
     (if find_user follower s = None \<or> find_user following s = None
      then Inl ''foreign key violation''
      else Inr ((), s\<lparr>follows := follows s @
             [\<lparr>f_id = gen_random_uuid (map f_id (follows s)), followerId = follower,
               followingId = following\<rparr>]\<rparr>))"

definition delete_follow :: "uuid \<Rightarrow> db \<Rightarrow> string + unit \<times> db" where
  "delete_follow i s = Inr ((), s\<lparr>follows := filter (\<lambda>f. f_id f \<noteq> i) (follows s)\<rparr>)"

definition insert_notification :: "uuid \<Rightarrow> string \<Rightarrow> string \<Rightarrow> db \<Rightarrow> string + unit \<times> db" where
  "insert_notification userId ty ti s =
     (if find_user userId s = None then Inl ''foreign key violation''
      else Inr ((), s\<lparr>notifications := notifications s @
             [\<lparr>n_id = gen_random_uuid (map n_id (notifications s)), n_userId = userId,
               n_type = ty, title = ti, isRead = Some False\<rparr>]\<rparr>))"

definition mark_all_read :: "uuid \<Rightarrow> db \<Rightarrow> string + unit \<times> db" where
  "mark_all_read userId s =
     Inr ((), s\<lparr>notifications :=
       map (\<lambda>n. if n_userId n = userId then n\<lparr>isRead := Some True\<rparr> else n) (notifications s)\<rparr>)"

definition insert_withdrawal ::
  "uuid \<Rightarrow> rat \<Rightarrow> string option \<Rightarrow> string option \<Rightarrow> db \<Rightarrow> string + withdrawal \<times> db" where
  "insert_withdrawal userId amt wallet net s =
     (case wallet of
        None \<Rightarrow> Inl ''null value in column wallet_address''
      | Some w \<Rightarrow>
          (case net of
             None \<Rightarrow> Inl ''null value in column network''
           | Some n \<Rightarrow>
               (case store_decimal amt of
                  Inl e \<Rightarrow> Inl e
                | Inr a \<Rightarrow>
                    if find_user userId s = None then Inl ''foreign key violation''
                    else
                      let row = \<lparr>w_id = gen_random_uuid (map w_id (withdrawals s)),
                                 w_userId = userId, amount = a, walletAddress = w,
                                 network = n, status = ''pending'', txHash = None,
                                 adminNotes = None, processedAt = None\<rparr>
                      in Inr (row, s\<lparr>withdrawals := withdrawals s @ [row]\<rparr>))))"

definition deduct :: "uuid \<Rightarrow> rat \<Rightarrow> user \<Rightarrow> user" where
  "deduct userId amt u =
     (if u_id u = userId
      then u\<lparr>availableBalance := map_option (\<lambda>b. round_scale8 (b - amt)) (availableBalance u)\<rparr>
      else u)"

definition update_balance :: "uuid \<Rightarrow> rat \<Rightarrow> db \<Rightarrow> string + unit \<times> db" where
  "update_balance userId amt s =
     (if \<exists>u \<in> set (users s). u_id u = userId \<and>
           (case availableBalance u of None \<Rightarrow> False
            | Some b \<Rightarrow> \<not> fits_precision18 (b - amt))
      then Inl ''numeric field overflow''
      else Inr ((), s\<lparr>users := map (deduct userId amt) (users s)\<rparr>))"

subsection \<open>JavaScript helpers\<close>

definition toLowerCase :: "string \<Rightarrow> string" where
  "toLowerCase = map (\<lambda>c. if 65 \<le> (of_char c :: nat) \<and> (of_char c :: nat) \<le> 90
                            then char_of (of_char c + (32 :: nat)) else c)"

definition is_space :: "char \<Rightarrow> bool" where
  "is_space c \<longleftrightarrow> (of_char c :: nat) \<in> {9, 10, 11, 12, 13, 32}"

definition trim :: "string \<Rightarrow> string" where
  "trim cs = rev (dropWhile is_space (rev (dropWhile is_space cs)))"

definition truthy :: "string option \<Rightarrow> bool" where
  "truthy x = (case x of None \<Rightarrow> False | Some cs \<Rightarrow> cs \<noteq> [])"

text \<open>
  \<^verbatim>\<open>bcrypt.hash\<close> and \<^verbatim>\<open>bcrypt.compare\<close> are library calls; of them the model keeps that a
  password compares equal to its own hash and to no other.
\<close>

definition bcrypt_hash :: "string \<Rightarrow> string" where
  "bcrypt_hash pw = pw"

definition bcrypt_compare :: "string \<Rightarrow> string \<Rightarrow> bool" where
  "bcrypt_compare pw h \<longleftrightarrow> bcrypt_hash pw = h"

definition or_zero :: "int option \<Rightarrow> int" where
  "or_zero c = (case c of None \<Rightarrow> 0 | Some n \<Rightarrow> n)"

section \<open>The routes (server/routes.ts)\<close>

text \<open>
  A request carries the session's \<^verbatim>\<open>userId\<close> (or none) and the fields of its body that
  the handler reads: a string field is absent or a string. The \<^verbatim>\<open>amount\<close> of a withdrawal
  request is a JSON number, hence a double; \<open>req_amount\<close> is the decimal that
  \<^verbatim>\<open>amount.toString()\<close> prints (the shortest one that denotes the double), which is what
  the insert and the update send to the database, and \<open>amount_number\<close> is the double
  itself, which is what the handler compares. The session cookie that register, login and
  logout set or clear is not part of the database; every request is taken with any
  session value.
\<close>

record withdrawal_request =
  req_amount :: rat
  req_walletAddress :: "string option"
  req_network :: "string option"

definition amount_number :: "withdrawal_request \<Rightarrow> rat" where
  "amount_number b = to_double (req_amount b)"

datatype request =
    Register "string option" "string option" "string option" "string option"
  | Login "string option" "string option"
  | GetMe
  | Logout
  | GetFeed
  | GetTrending
  | Upload bool
  | ToggleLike uuid
  | GetComments uuid
  | PostComment uuid "string option" "uuid option"
  | GetMyVideos
  | GetMyStats
  | GetEarningsStats
  | GetUser uuid
  | GetUserVideos uuid
  | Follow uuid
  | Unfollow uuid
  | GetNotifications
  | ReadAllNotifications
  | GetWithdrawals
  | PostWithdrawal withdrawal_request

subsection \<open>Auth routes\<close>

definition post_register ::
  "string option \<Rightarrow> string option \<Rightarrow> string option \<Rightarrow> string option \<Rightarrow> response dbm" where
  "post_register em un pw dn =
     (case (em, un, pw) of
        (Some e, Some u, Some p) \<Rightarrow>
          if e = [] \<or> u = [] \<or> p = []
          then respond 400 (Message ''All fields are required'')
          else
            bnd (query (\<lambda>s. find (\<lambda>x. email x = toLowerCase e \<or> username x = toLowerCase u)
                              (users s))) (\<lambda>existingUser.
              case existingUser of
                Some x \<Rightarrow> respond 400 (Message ''Email or username already exists'')
              | None \<Rightarrow>
                  bnd (await (insert_user (toLowerCase e) (toLowerCase u) (bcrypt_hash p)
                         (if truthy dn then (case dn of Some d \<Rightarrow> d | None \<Rightarrow> u) else u)))
                    (\<lambda>row. respond 200 (AuthUser row)))
      | _ \<Rightarrow> respond 400 (Message ''All fields are required''))"

definition post_login :: "string option \<Rightarrow> string option \<Rightarrow> response dbm" where
  "post_login em pw =
     (case em of
        None \<Rightarrow> throw ''TypeError''
      | Some e \<Rightarrow>
          bnd (query (\<lambda>s. find (\<lambda>x. email x = toLowerCase e) (users s))) (\<lambda>found.
            case found of
              None \<Rightarrow> respond 401 (Message ''Invalid email or password'')
            | Some u \<Rightarrow>
                if isBanned u = Some True
                then respond 403 (Message ''Your account has been suspended'')
                else
                  (case pw of
                     None \<Rightarrow> throw ''Illegal arguments''
                   | Some p \<Rightarrow>
                       if \<not> bcrypt_compare p (password u)
                       then respond 401 (Message ''Invalid email or password'')
                       else respond 200 (AuthUser u))))"

definition get_me :: "uuid option \<Rightarrow> response dbm" where
  "get_me sess =
     requireAuth sess (\<lambda>userId.
       bnd (query (find_user userId)) (\<lambda>found.
         case found of
           None \<Rightarrow> respond 401 (Message ''User not found'')
         | Some u \<Rightarrow> respond 200 (AuthUser u)))"

definition session_destroy :: "unit dbm" where
  "session_destroy k s =
     (if k = Some 0 then Throw ''Logout failed'' s else Ok () (map_option (\<lambda>n. n - 1) k) s)"

definition post_logout :: "response dbm" where
  "post_logout = bnd session_destroy (\<lambda>_. respond 200 (Message ''Logged out''))"

subsection \<open>Video routes\<close>

definition visible :: "video \<Rightarrow> bool" where
  "visible v \<longleftrightarrow> isPublished v = Some True \<and> isDeleted v = Some False"

definition get_feed :: "uuid option \<Rightarrow> response dbm" where
  "get_feed sess =
     bnd (query (\<lambda>s. take 20 (rev (filter visible (videos s))))) (\<lambda>vs.
       case sess of
         None \<Rightarrow> respond 200 (Videos vs)
       | Some userId \<Rightarrow>
           bnd (query (\<lambda>s. filter (\<lambda>l. l_userId l = userId) (likes s)))
             (\<lambda>_. respond 200 (Videos vs)))"

text \<open>The order and the limit of the trending list are not modelled.\<close>

definition get_trending :: "response dbm" where
  "get_trending = bnd (query (\<lambda>s. filter visible (videos s))) (\<lambda>vs. respond 200 (Videos vs))"

definition post_upload :: "uuid option \<Rightarrow> bool \<Rightarrow> response dbm" where
  "post_upload sess has_file =
     requireAuth sess (\<lambda>userId.
       if \<not> has_file then respond 400 (Message ''No video file uploaded'')
       else bnd (await (insert_video userId)) (\<lambda>row. respond 200 (VideoRow row)))"

definition post_like :: "uuid option \<Rightarrow> uuid \<Rightarrow> response dbm" where
  "post_like sess videoId =
     requireAuth sess (\<lambda>userId.
       bnd (query (\<lambda>s. find (\<lambda>l. l_userId l = userId \<and> l_videoId l = videoId) (likes s)))
         (\<lambda>existingLike.
           case existingLike of
             Some l \<Rightarrow>
               bnd (await (delete_like (l_id l))) (\<lambda>_.
               bnd (await (update_videos (\<lambda>v. v_id v = videoId)
                      (\<lambda>v. v\<lparr>likeCount := map_option (\<lambda>c. c - 1) (likeCount v)\<rparr>)))
                 (\<lambda>_. respond 200 (Liked False)))
           | None \<Rightarrow>
               bnd (await (insert_like userId videoId)) (\<lambda>_.
               bnd (await (update_videos (\<lambda>v. v_id v = videoId)
                      (\<lambda>v. v\<lparr>likeCount := map_option (\<lambda>c. c + 1) (likeCount v)\<rparr>))) (\<lambda>_.
               bnd (query (find_video videoId)) (\<lambda>found.
                 case found of
                   None \<Rightarrow> respond 200 (Liked True)
                 | Some v \<Rightarrow>
                     if v_userId v \<noteq> userId
                     then
                       bnd (query (find_user userId)) (\<lambda>liker.
                       bnd (await (insert_notification (v_userId v) ''like'' ''New Like''))
                         (\<lambda>_. respond 200 (Liked True)))
                     else respond 200 (Liked True))))))"

definition get_comments :: "uuid \<Rightarrow> response dbm" where
  "get_comments videoId =
     bnd (query (\<lambda>s. rev (filter (\<lambda>c. c_videoId c = videoId \<and> c_isDeleted c = Some False)
                            (comments s))))
       (\<lambda>cs. respond 200 (Comments cs))"

definition post_comment :: "uuid option \<Rightarrow> uuid \<Rightarrow> string option \<Rightarrow> uuid option \<Rightarrow> response dbm" where
  "post_comment sess videoId content parent =
     requireAuth sess (\<lambda>userId.
       if \<not> truthy (map_option trim content)
       then respond 400 (Message ''Comment cannot be empty'')
       else
         bnd (await (insert_comment userId videoId parent)) (\<lambda>row.
         bnd (await (update_videos (\<lambda>v. v_id v = videoId)
                (\<lambda>v. v\<lparr>commentCount := map_option (\<lambda>c. c + 1) (commentCount v)\<rparr>))) (\<lambda>_.
         bnd (query (find_video videoId)) (\<lambda>found.
         bnd (case found of
                None \<Rightarrow> ret ()
              | Some v \<Rightarrow>
                  if v_userId v \<noteq> userId
                  then
                    bnd (query (find_user userId)) (\<lambda>commenter.
                      await (insert_notification (v_userId v) ''comment'' ''New Comment''))
                  else ret ()) (\<lambda>_.
         bnd (query (find_user userId)) (\<lambda>u.
           case u of
             None \<Rightarrow> throw ''TypeError''
           | Some x \<Rightarrow> respond 200 (CommentRow row)))))))"

subsection \<open>User routes\<close>

definition get_my_videos :: "uuid option \<Rightarrow> response dbm" where
  "get_my_videos sess =
     requireAuth sess (\<lambda>userId.
       bnd (query (\<lambda>s. rev (filter (\<lambda>v. v_userId v = userId \<and> isDeleted v = Some False)
                              (videos s))))
         (\<lambda>vs. respond 200 (Videos vs)))"

definition totalViews :: "video list \<Rightarrow> int" where
  "totalViews vs = fold (\<lambda>v sum. sum + or_zero (viewCount v)) vs 0"

definition totalImpressions :: "video list \<Rightarrow> int" where
  "totalImpressions vs = fold (\<lambda>v sum. sum + or_zero (adImpressions v)) vs 0"

definition get_my_stats :: "uuid option \<Rightarrow> response dbm" where
  "get_my_stats sess =
     requireAuth sess (\<lambda>userId.
       bnd (query (\<lambda>s. filter (\<lambda>v. v_userId v = userId) (videos s)))
         (\<lambda>vs. respond 200 (Stats (totalViews vs) (totalImpressions vs))))"

definition get_earnings_stats :: "uuid option \<Rightarrow> response dbm" where
  "get_earnings_stats sess =
     requireAuth sess (\<lambda>userId.
       bnd (query (\<lambda>s. filter (\<lambda>v. v_userId v = userId) (videos s)))
         (\<lambda>vs. respond 200
                  (EarningsStats (totalViews vs) (totalImpressions vs) (5 / 2) 0 0 0)))"

definition get_user :: "uuid option \<Rightarrow> uuid \<Rightarrow> response dbm" where
  "get_user sess userId =
     bnd (query (find_user userId)) (\<lambda>found.
       case found of
         None \<Rightarrow> respond 404 (Message ''User not found'')
       | Some u \<Rightarrow>
           (case sess of
              None \<Rightarrow> respond 200 (Profile u False)
            | Some me \<Rightarrow>
                if me \<noteq> userId
                then
                  bnd (query (\<lambda>s. find (\<lambda>f. followerId f = me \<and> followingId f = userId)
                                    (follows s)))
                    (\<lambda>fo. respond 200 (Profile u (fo \<noteq> None)))
                else respond 200 (Profile u False)))"

definition get_user_videos :: "uuid \<Rightarrow> response dbm" where
  "get_user_videos userId =
     bnd (query (\<lambda>s. rev (filter (\<lambda>v. v_userId v = userId \<and> visible v) (videos s))))
       (\<lambda>vs. respond 200 (Videos vs))"

definition post_follow :: "uuid option \<Rightarrow> uuid \<Rightarrow> response dbm" where
  "post_follow sess userId =
     requireAuth sess (\<lambda>follower.
       if userId = follower then respond 400 (Message ''Cannot follow yourself'')
       else
         bnd (query (\<lambda>s. find (\<lambda>f. followerId f = follower \<and> followingId f = userId)
                           (follows s))) (\<lambda>existingFollow.
           case existingFollow of
             Some f \<Rightarrow> respond 400 (Message ''Already following'')
           | None \<Rightarrow>
               bnd (await (insert_follow follower userId)) (\<lambda>_.
               bnd (await (update_users (\<lambda>u. u_id u = userId)
                      (\<lambda>u. u\<lparr>followerCount := map_option (\<lambda>c. c + 1) (followerCount u)\<rparr>)))
                 (\<lambda>_.
               bnd (await (update_users (\<lambda>u. u_id u = follower)
                      (\<lambda>u. u\<lparr>followingCount := map_option (\<lambda>c. c + 1) (followingCount u)\<rparr>)))
                 (\<lambda>_.
               bnd (query (find_user follower)) (\<lambda>fu.
               bnd (await (insert_notification userId ''follow'' ''New Follower''))
                 (\<lambda>_. respond 200 (Following True))))))))"

definition greatest_dec :: "int option \<Rightarrow> int option" where
  "greatest_dec c = (case c of None \<Rightarrow> Some 0 | Some n \<Rightarrow> Some (max (n - 1) 0))"

definition delete_unfollow :: "uuid option \<Rightarrow> uuid \<Rightarrow> response dbm" where
  "delete_unfollow sess userId =
     requireAuth sess (\<lambda>follower.
       bnd (query (\<lambda>s. find (\<lambda>f. followerId f = follower \<and> followingId f = userId)
                         (follows s))) (\<lambda>found.
         case found of
           None \<Rightarrow> respond 400 (Message ''Not following'')
         | Some f \<Rightarrow>
             bnd (await (delete_follow (f_id f))) (\<lambda>_.
             bnd (await (update_users (\<lambda>u. u_id u = userId)
                    (\<lambda>u. u\<lparr>followerCount := greatest_dec (followerCount u)\<rparr>))) (\<lambda>_.
             bnd (await (update_users (\<lambda>u. u_id u = follower)
                    (\<lambda>u. u\<lparr>followingCount := greatest_dec (followingCount u)\<rparr>)))
               (\<lambda>_. respond 200 (Following False))))))"

subsection \<open>Notifications\<close>

definition get_notifications :: "uuid option \<Rightarrow> response dbm" where
  "get_notifications sess =
     requireAuth sess (\<lambda>userId.
       bnd (query (\<lambda>s. take 50 (rev (filter (\<lambda>n. n_userId n = userId) (notifications s)))))
         (\<lambda>ns. respond 200 (Notifications ns)))"

definition post_read_all :: "uuid option \<Rightarrow> response dbm" where
  "post_read_all sess =
     requireAuth sess (\<lambda>userId.
       bnd (await (mark_all_read userId)) (\<lambda>_. respond 200 Success))"

subsection \<open>Withdrawals\<close>

definition get_withdrawals :: "uuid option \<Rightarrow> response dbm" where
  "get_withdrawals sess =
     requireAuth sess (\<lambda>userId.
       bnd (query (\<lambda>s. rev (filter (\<lambda>w. w_userId w = userId) (withdrawals s))))
         (\<lambda>ws. respond 200 (Withdrawals ws)))"

definition parse_balance :: "user \<Rightarrow> rat" where
  "parse_balance u = parseFloat (availableBalance u)"

definition post_withdrawals :: "uuid option \<Rightarrow> withdrawal_request \<Rightarrow> response dbm" where
  "post_withdrawals sess b =
     requireAuth sess (\<lambda>userId.
       bnd (query (find_user userId)) (\<lambda>found.
         case found of
           None \<Rightarrow> respond 404 (Message ''User not found'')
         | Some u \<Rightarrow>
             if amount_number b > parse_balance u
             then respond 400 (Message ''Insufficient balance'')
             else if amount_number b < 10
             then respond 400 (Message ''Minimum withdrawal is $10'')
             else
               bnd (await (insert_withdrawal userId (req_amount b)
                      (req_walletAddress b) (req_network b))) (\<lambda>row.
               bnd (await (update_balance userId (req_amount b))) (\<lambda>_.
               bnd (await (insert_notification userId ''withdrawal'' ''Withdrawal Requested''))
                 (\<lambda>_. respond 200 (WithdrawalRow row))))))"

subsection \<open>The server\<close>

fun route :: "uuid option \<Rightarrow> request \<Rightarrow> response dbm" where
  "route sess (Register em un pw dn) = post_register em un pw dn"
| "route sess (Login em pw) = post_login em pw"
| "route sess GetMe = get_me sess"
| "route sess Logout = post_logout"
| "route sess GetFeed = get_feed sess"
| "route sess GetTrending = get_trending"
| "route sess (Upload has_file) = post_upload sess has_file"
| "route sess (ToggleLike videoId) = post_like sess videoId"
| "route sess (GetComments videoId) = get_comments videoId"
| "route sess (PostComment videoId content parent) = post_comment sess videoId content parent"
| "route sess GetMyVideos = get_my_videos sess"
| "route sess GetMyStats = get_my_stats sess"
| "route sess GetEarningsStats = get_earnings_stats sess"
| "route sess (GetUser userId) = get_user sess userId"
| "route sess (GetUserVideos userId) = get_user_videos userId"
| "route sess (Follow userId) = post_follow sess userId"
| "route sess (Unfollow userId) = delete_unfollow sess userId"
| "route sess GetNotifications = get_notifications sess"
| "route sess ReadAllNotifications = post_read_all sess"
| "route sess GetWithdrawals = get_withdrawals sess"
| "route sess (PostWithdrawal b) = post_withdrawals sess b"

definition step :: "nat option \<Rightarrow> uuid option \<Rightarrow> request \<Rightarrow> db \<Rightarrow> response \<times> db" where
  "step k sess r s = handle (route sess r) k s"

text \<open>A sequence of calls, each with its own fault choice and session.\<close>

fun run :: "(nat option \<times> uuid option \<times> request) list \<Rightarrow> db \<Rightarrow> db" where
  "run [] s = s"
| "run ((k, sess, r) # cs) s = run cs (snd (step k sess r s))"

section \<open>The ledger's quantities\<close>

text \<open>
  The ledger's equation is about the stored decimals; a null column counts as zero, as
  it does where the client and the handler read one.
\<close>

definition decimal_or_zero :: "rat option \<Rightarrow> rat" where
  "decimal_or_zero x = (case x of None \<Rightarrow> 0 | Some v \<Rightarrow> v)"

definition pending_sum :: "uuid \<Rightarrow> db \<Rightarrow> rat" where
  "pending_sum i s =
     sum_list (map amount (filter (\<lambda>w. w_userId w = i \<and> status w = ''pending'') (withdrawals s)))"

definition ledger_balanced :: "user \<Rightarrow> db \<Rightarrow> bool" where
  "ledger_balanced u s \<longleftrightarrow>
     decimal_or_zero (totalEarnings u) =
       decimal_or_zero (availableBalance u) + decimal_or_zero (withdrawnAmount u) +
       pending_sum (u_id u) s"

definition earnings_columns :: "db \<Rightarrow> (uuid \<times> rat option \<times> rat option) list" where
  "earnings_columns s = map (\<lambda>u. (u_id u, totalEarnings u, withdrawnAmount u)) (users s)"

definition pending_row :: "uuid \<Rightarrow> withdrawal_request \<Rightarrow> db \<Rightarrow> withdrawal" where
  "pending_row userId b s =
     \<lparr>w_id = gen_random_uuid (map w_id (withdrawals s)), w_userId = userId,
      amount = round_scale8 (req_amount b),
      walletAddress = (case req_walletAddress b of None \<Rightarrow> [] | Some w \<Rightarrow> w),
      network = (case req_network b of None \<Rightarrow> [] | Some n \<Rightarrow> n),
      status = ''pending'', txHash = None, adminNotes = None, processedAt = None\<rparr>"

subsection \<open>Reasoning about handlers\<close>

definition keeps :: "(db \<Rightarrow> bool) \<Rightarrow> 'a dbm \<Rightarrow> bool" where
  "keeps P m \<longleftrightarrow>
     (\<forall>k s. P s \<longrightarrow> (case m k s of Throw e s' \<Rightarrow> P s' | Ok a k' s' \<Rightarrow> P s'))"

definition same_money :: "user \<Rightarrow> user \<Rightarrow> bool" where
  "same_money u' u \<longleftrightarrow>
     u_id u' = u_id u \<and> totalEarnings u' = totalEarnings u \<and>
     availableBalance u' = availableBalance u \<and> withdrawnAmount u' = withdrawnAmount u"

definition new_account :: "user \<Rightarrow> bool" where
  "new_account u \<longleftrightarrow>
     totalEarnings u = Some 0 \<and> availableBalance u = Some 0 \<and> withdrawnAmount u = Some 0"

definition grows :: "db \<Rightarrow> db \<Rightarrow> bool" where
  "grows s s' \<longleftrightarrow>
     withdrawals s' = withdrawals s \<and>
     (\<exists>us new. users s' = us @ new \<and> list_all2 same_money us (users s) \<and>
                list_all new_account new)"

definition extends_earnings :: "db \<Rightarrow> db \<Rightarrow> bool" where
  "extends_earnings s s' \<longleftrightarrow>
     (\<exists>new. earnings_columns s' = earnings_columns s @ new \<and>
            (\<forall>r \<in> set new. fst (snd r) = Some 0 \<and> snd (snd r) = Some 0))"

definition is_withdrawal :: "request \<Rightarrow> bool" where
  "is_withdrawal r = (case r of PostWithdrawal b \<Rightarrow> True | _ \<Rightarrow> False)"

subsection \<open>The request schema of shared/schema.ts\<close>

text \<open>
  \<^verbatim>\<open>withdrawalRequestSchema = z.object({ amount: z.number().positive(),
  walletAddress: z.string().min(10), network: z.enum(["BEP20", "ERC20"]) })\<close>.
  No route of \<^verbatim>\<open>server/routes.ts\<close> calls it.
\<close>

definition withdrawalRequestSchema :: "withdrawal_request \<Rightarrow> bool" where
  "withdrawalRequestSchema b \<longleftrightarrow>
     0 < req_amount b \<and>
     (case req_walletAddress b of None \<Rightarrow> False | Some w \<Rightarrow> 10 \<le> length w) \<and>
     (case req_network b of None \<Rightarrow> False | Some n \<Rightarrow> n = ''BEP20'' \<or> n = ''ERC20'')"

section \<open>The administrative transition of the specification\<close>

text \<open>
  \<^verbatim>\<open>server/routes.ts\<close> registers no route that changes a withdrawal after its insert;
  the design notes of the repository place the admin panel outside this code base. The
  operation below is therefore written from the specification's sections 4.1, 4.3, 6
  and 7, over the tables of the schema.
\<close>

text \<open>
  Modelled from the spec: the error kinds of section 7 and the 404 of the endpoint table
  in section 6; the source has no such type, its handlers answer with message strings.
\<close>

datatype error_kind =
    InsufficientBalance | BelowMinimum | InvalidInput | UserNotFound
  | InvalidTransition | NotPending | NotFound

text \<open>
  Modelled from the spec: the body \<^verbatim>\<open>{status, adminNotes?, txHash?}\<close> of the
  administrative endpoint in section 6, which the source does not contain.
\<close>

record transition_request =
  t_status :: string
  t_adminNotes :: "string option"
  t_txHash :: "string option"

definition find_withdrawal :: "uuid \<Rightarrow> db \<Rightarrow> withdrawal option" where
  "find_withdrawal i s = find (\<lambda>w. w_id w = i) (withdrawals s)"

text \<open>
  Modelled from the spec: \<^verbatim>\<open>settleWithdrawal(withdrawalId, outcome)\<close> of section 4.1, which
  the source does not contain. "If rejected, restores the reserved amount to
  availableBalance. If completed, moves the reserved amount into withdrawnAmount. Fails
  with NotPending if the withdrawal is not currently pending."
\<close>

definition settleWithdrawal :: "uuid \<Rightarrow> string \<Rightarrow> db \<Rightarrow> error_kind + db" where
  "settleWithdrawal withdrawalId outcome s =
     (case find_withdrawal withdrawalId s of
        None \<Rightarrow> Inl NotFound
      | Some w \<Rightarrow>
          if status w \<noteq> ''pending'' then Inl NotPending
          else if outcome = ''rejected'' then
            Inr (s\<lparr>users := map (\<lambda>u. if u_id u = w_userId w
                      then u\<lparr>availableBalance :=
                             map_option (\<lambda>b. b + amount w) (availableBalance u)\<rparr>
                      else u) (users s),
                   withdrawals := map (\<lambda>x. if w_id x = withdrawalId
                      then x\<lparr>status := ''rejected''\<rparr> else x) (withdrawals s)\<rparr>)
          else if outcome = ''completed'' then
            Inr (s\<lparr>users := map (\<lambda>u. if u_id u = w_userId w
                      then u\<lparr>withdrawnAmount :=
                             map_option (\<lambda>b. b + amount w) (withdrawnAmount u)\<rparr>
                      else u) (users s),
                   withdrawals := map (\<lambda>x. if w_id x = withdrawalId
                      then x\<lparr>status := ''completed''\<rparr> else x) (withdrawals s)\<rparr>)
          else Inl InvalidTransition)"

text \<open>
  Modelled from the spec: the administrative transition endpoint of sections 4.3 and 6,
  which the source does not contain. Body \<^verbatim>\<open>{status, adminNotes?, txHash?}\<close>; pending to
  completed "requires an external confirmation reference", pending to rejected "requires
  an administrative note"; both call \<^verbatim>\<open>settleWithdrawal\<close> and set \<^verbatim>\<open>processedAt\<close>; "no
  other transitions are legal; attempting one fails with InvalidTransition"; an unknown
  id is NotFound. A failure returns the database as it was.
\<close>

definition transition ::
  "nat \<Rightarrow> uuid \<Rightarrow> transition_request \<Rightarrow> db \<Rightarrow> (error_kind + withdrawal) \<times> db" where
  "transition now withdrawalId body s =
     (case find_withdrawal withdrawalId s of
        None \<Rightarrow> (Inl NotFound, s)
      | Some w \<Rightarrow>
          if status w \<noteq> ''pending'' then (Inl InvalidTransition, s)
          else if (t_status body = ''completed'' \<and> t_txHash body \<noteq> None) \<or>
                  (t_status body = ''rejected'' \<and> t_adminNotes body \<noteq> None)
          then
            (case settleWithdrawal withdrawalId (t_status body) s of
               Inl e \<Rightarrow> (Inl InvalidTransition, s)
             | Inr s1 \<Rightarrow>
                 let s2 = s1\<lparr>withdrawals := map (\<lambda>x. if w_id x = withdrawalId
                            then x\<lparr>processedAt := Some now, txHash := t_txHash body,
                                   adminNotes := t_adminNotes body\<rparr>
                            else x) (withdrawals s1)\<rparr>
                 in (case find_withdrawal withdrawalId s2 of
                       None \<Rightarrow> (Inl NotFound, s)
                     | Some w' \<Rightarrow> (Inr w', s2)))
          else (Inl InvalidTransition, s))"

section \<open>Example data\<close>

definition creator :: "rat \<Rightarrow> user" where
  "creator bal =
     \<lparr>u_id = 1, email = ''creator@example.com'', username = ''creator'',
      password = ''secret'', displayName = Some ''Creator'', isBanned = Some False,
      totalEarnings = Some bal, availableBalance = Some bal, withdrawnAmount = Some 0,
      followerCount = Some 0, followingCount = Some 0\<rparr>"

definition ledger_db :: "rat \<Rightarrow> db" where
  "ledger_db bal =
     \<lparr>users = [creator bal], videos = [], likes = [], comments = [], follows = [],
      withdrawals = [], notifications = []\<rparr>"

definition payout :: "rat \<Rightarrow> string \<Rightarrow> string \<Rightarrow> withdrawal_request" where
  "payout a w n = \<lparr>req_amount = a, req_walletAddress = Some w, req_network = Some n\<rparr>"

definition wallet :: string where
  "wallet = ''0x52908400098527886E0F7030069857D2E4169EE7''"

definition payout_row :: "rat \<Rightarrow> string \<Rightarrow> string \<Rightarrow> withdrawal" where
  "payout_row a w n =
     \<lparr>w_id = 1, w_userId = 1, amount = a, walletAddress = w, network = n,
      status = ''pending'', txHash = None, adminNotes = None, processedAt = None\<rparr>"

definition payout_note :: notification where
  "payout_note =
     \<lparr>n_id = 1, n_userId = 1, n_type = ''withdrawal'', title = ''Withdrawal Requested'',
      isRead = Some False\<rparr>"

definition creator_after :: "rat \<Rightarrow> rat \<Rightarrow> user" where
  "creator_after bal bal' = (creator bal)\<lparr>availableBalance := Some bal'\<rparr>"

definition db_after :: "rat \<Rightarrow> rat \<Rightarrow> rat \<Rightarrow> string \<Rightarrow> string \<Rightarrow> db" where
  "db_after bal bal' a w n =
     \<lparr>users = [creator_after bal bal'], videos = [], likes = [], comments = [], follows = [],
      withdrawals = [payout_row a w n], notifications = [payout_note]\<rparr>"

definition insufficient_balance :: response where
  "insufficient_balance = \<lparr>code = 400, json = Message ''Insufficient balance''\<rparr>"

definition below_minimum :: response where
  "below_minimum = \<lparr>code = 400, json = Message ''Minimum withdrawal is $10''\<rparr>"

definition signup :: request where
  "signup = Register (Some ''fan@example.com'') (Some ''fan'') (Some ''hunter2'') None"

definition paid_out :: db where
  "paid_out =
     (ledger_db 30)\<lparr>withdrawals := [(payout_row 20 wallet ''BEP20'')\<lparr>status := ''completed''\<rparr>]\<rparr>"

definition approve :: transition_request where
  "approve = \<lparr>t_status = ''completed'', t_adminNotes = None, t_txHash = Some ''0xabc''\<rparr>"

text \<open>
  A balance and an amount of seventeen significant digits that denote the same double,
  and the largest balance the column holds.
\<close>

definition large_balance :: rat where
  "large_balance = 13421772800000002 / 100000000"

definition large_amount :: rat where
  "large_amount = 13421772800000003 / 100000000"

definition full_balance :: rat where
  "full_balance = 999999999999999999 / 100000000"

section \<open>Lemmas on decimals, handlers and tables\<close>

subsection \<open>Rounding to scale 8\<close>

lemma floor_rat_numeral [simp]: "\<lfloor>numeral a / numeral b :: rat\<rfloor> = numeral a div numeral b"
  by (metis floor_divide_of_int_eq of_int_numeral)

lemma round_scale8_nonneg: "0 \<le> x \<Longrightarrow> 0 \<le> round_scale8 x"
  by (simp add: round_scale8_def)

lemma floor_half_up: "\<lfloor>(of_int n :: rat) + 1 / 2\<rfloor> = n"
  by (rule floor_unique) simp_all

lemma round_scale8_of_int: "round_scale8 (of_int n / 100000000) = of_int n / 100000000"
proof (cases "0 \<le> n")
  case True
  then show ?thesis by (simp add: round_scale8_def floor_half_up)
next
  case False
  then have "\<not> (0::rat) \<le> of_int n / 100000000" by (simp add: zero_le_divide_iff)
  moreover have "\<lfloor>- (of_int n :: rat) + 1 / 2\<rfloor> = - n"
    using floor_half_up [of "- n"] by simp
  ultimately show ?thesis by (simp add: round_scale8_def)
qed

lemma round_scale8_fixed: "round_scale8 x = x \<longleftrightarrow> (\<exists>n::int. x = of_int n / 100000000)"
proof
  assume h: "round_scale8 x = x"
  show "\<exists>n::int. x = of_int n / 100000000"
  proof (cases "0 \<le> x")
    case True
    with h have "x = of_int \<lfloor>x * 100000000 + 1 / 2\<rfloor> / 100000000"
      unfolding round_scale8_def by simp
    then show ?thesis by blast
  next
    case False
    with h have "x = - (of_int \<lfloor>- x * 100000000 + 1 / 2\<rfloor> / 100000000)"
      unfolding round_scale8_def by simp
    then have "x = of_int (- \<lfloor>- x * 100000000 + 1 / 2\<rfloor>) / 100000000" by simp
    then show ?thesis by blast
  qed
next
  assume "\<exists>n::int. x = of_int n / 100000000"
  then obtain n :: int where x: "x = of_int n / 100000000" by blast
  show "round_scale8 x = x" unfolding x by (rule round_scale8_of_int)
qed

lemma round_scale8_diff:
  assumes "round_scale8 a = a" and "round_scale8 b = b"
  shows "round_scale8 (b - a) = b - a"
proof -
  from assms obtain n m :: int
    where a: "a = of_int n / 100000000" and b: "b = of_int m / 100000000"
    unfolding round_scale8_fixed by blast
  have eq: "b - a = of_int (m - n) / 100000000" by (simp add: a b diff_divide_distrib)
  show ?thesis unfolding eq by (rule round_scale8_of_int)
qed

subsection \<open>Doubles\<close>

lemma pow2_diff:
  assumes "0 \<le> x" and "0 \<le> y"
  shows "pow2 (x - y) = 2 ^ nat x / 2 ^ nat y"
proof (cases "y \<le> x")
  case True
  with assms have "nat (x - y) = nat x - nat y" and "nat y \<le> nat x" by auto
  with True show ?thesis by (simp add: pow2_def power_diff)
next
  case False
  with assms have n: "nat (- (x - y)) = nat y - nat x" and "nat x \<le> nat y" by auto
  then have "(2::rat) ^ nat (- (x - y)) = 2 ^ nat y / 2 ^ nat x" by (simp add: power_diff)
  with False show ?thesis by (simp add: pow2_def)
qed

text \<open>The exponent that \<open>to_double\<close> works with is the binary exponent of its argument.\<close>

lemma floor_log2_bounds:
  assumes "0 < a"
  shows "pow2 (floor_log2 a) \<le> a \<and> a < pow2 (floor_log2 a + 1)"
proof -
  obtain p q where pq: "quotient_of a = (p, q)" by (cases "quotient_of a")
  then have q0: "0 < q" and a: "a = of_int p / of_int q"
    by (simp_all add: quotient_of_denom_pos quotient_of_div)
  with assms have p0: "0 < p" by (simp add: zero_less_divide_iff)
  define bp where "bp = bitlen p"
  define bq where "bq = bitlen q"
  from bitlen_bounds [OF p0] have p1: "2 ^ nat (bp - 1) \<le> p" and p2: "p < 2 ^ nat bp"
    by (simp_all add: bp_def)
  from bitlen_bounds [OF q0] have q1: "2 ^ nat (bq - 1) \<le> q" and q2: "q < 2 ^ nat bq"
    by (simp_all add: bq_def)
  have bp1: "1 \<le> bp" using p0 by (simp add: bp_def bitlen_alt_def)
  have bq1: "1 \<le> bq" using q0 by (simp add: bq_def bitlen_alt_def)
  have rp1: "(2::rat) ^ nat (bp - 1) \<le> of_int p"
    using p1 by (metis of_int_le_iff of_int_numeral of_int_power)
  have rp2: "of_int p < (2::rat) ^ nat bp"
    using p2 by (metis of_int_less_iff of_int_numeral of_int_power)
  have rq1: "(2::rat) ^ nat (bq - 1) \<le> of_int q"
    using q1 by (metis of_int_le_iff of_int_numeral of_int_power)
  have rq2: "of_int q < (2::rat) ^ nat bq"
    using q2 by (metis of_int_less_iff of_int_numeral of_int_power)
  have rq0: "(0::rat) < of_int q" using q0 by simp
  have rp0: "(0::rat) < of_int p" using p0 by simp
  have low: "pow2 (bp - bq - 1) \<le> a"
  proof -
    have "pow2 (bp - bq - 1) = 2 ^ nat (bp - 1) / 2 ^ nat bq"
      using pow2_diff [of "bp - 1" bq] bp1 bq1 by (simp add: algebra_simps)
    also have "\<dots> \<le> of_int p / of_int q"
      using rp1 rq2 rq0 rp0 by (intro frac_le) simp_all
    finally show ?thesis by (simp add: a)
  qed
  have up: "a < pow2 (bp - bq + 1)"
  proof -
    have "of_int p / of_int q < (2::rat) ^ nat bp / 2 ^ nat (bq - 1)"
      using rp2 rq1 rq0 rp0 by (intro frac_less) simp_all
    also have "\<dots> = pow2 (bp - bq + 1)"
      using pow2_diff [of bp "bq - 1"] bp1 bq1 by (simp add: algebra_simps)
    finally show ?thesis by (simp add: a)
  qed
  show ?thesis
  proof (cases "pow2 (bp - bq) \<le> a")
    case True
    then have "floor_log2 a = bp - bq"
      by (simp add: floor_log2_def pq bp_def bq_def)
    with True up show ?thesis by simp
  next
    case False
    then have "floor_log2 a = bp - bq - 1"
      by (simp add: floor_log2_def pq bp_def bq_def)
    with False low show ?thesis by simp
  qed
qed

lemma to_double_3: "to_double 3 = 3"
  by code_simp

lemma to_double_5: "to_double 5 = 5"
  by code_simp

lemma to_double_10: "to_double 10 = 10"
  by code_simp

lemma to_double_20: "to_double 20 = 20"
  by code_simp

lemma to_double_50: "to_double 50 = 50"
  by code_simp

lemma to_double_tenth: "to_double (1 / 10) = 3602879701896397 / 36028797018963968"
  by code_simp

lemma to_double_large_balance:
  "to_double (6710886400000001 / 50000000) = 4503599627370497 / 33554432"
  by code_simp

lemma to_double_large_amount:
  "to_double (13421772800000003 / 100000000) = 4503599627370497 / 33554432"
  by code_simp

lemma to_double_full_balance: "to_double (999999999999999999 / 100000000) = 10000000000"
  by code_simp

lemma to_double_10000000000: "to_double 10000000000 = 10000000000"
  by code_simp

lemma to_double_tie_amount: "to_double (2000000001 / 200000000) = 2814749768513935 / 281474976710656"
  by code_simp

lemma to_double_odd_balance:
  "to_double (5000000001 / 100000000) = 7036874419173775 / 140737488355328"
  by code_simp

lemmas double_values = to_double_3 to_double_5 to_double_10 to_double_20 to_double_50
  to_double_large_balance to_double_large_amount to_double_full_balance
  to_double_10000000000 to_double_tie_amount to_double_odd_balance

subsection \<open>What a handler keeps\<close>

lemma keeps_ret: "keeps P (ret a)"
  by (simp add: keeps_def ret_def)

lemma keeps_respond: "keeps P (respond c b)"
  by (simp add: keeps_def respond_def ret_def)

lemma keeps_throw: "keeps P (throw e)"
  by (simp add: keeps_def throw_def)

lemma keeps_bnd:
  assumes m: "keeps P m" and f: "\<And>a. keeps P (f a)"
  shows "keeps P (bnd m f)"
  unfolding keeps_def
proof (intro allI impI)
  fix k s
  assume "P s"
  with m have 1: "case m k s of Throw e s' \<Rightarrow> P s' | Ok a k' s' \<Rightarrow> P s'"
    by (simp add: keeps_def)
  show "case bnd m f k s of Throw e s' \<Rightarrow> P s' | Ok a k' s' \<Rightarrow> P s'"
  proof (cases "m k s")
    case (Throw e s')
    with 1 show ?thesis by (simp add: bnd_def)
  next
    case (Ok a k' s')
    with 1 have "P s'" by simp
    with f [of a] have "case f a k' s' of Throw e t \<Rightarrow> P t | Ok b k'' t \<Rightarrow> P t"
      by (simp add: keeps_def)
    with Ok show ?thesis by (simp add: bnd_def)
  qed
qed

lemma keeps_await: "(\<And>s a s'. P s \<Longrightarrow> q s = Inr (a, s') \<Longrightarrow> P s') \<Longrightarrow> keeps P (await q)"
  unfolding keeps_def await_def by (auto split: sum.splits)

lemma keeps_query: "keeps P (query f)"
  unfolding query_def by (rule keeps_await) simp

lemma keeps_requireAuth: "(\<And>i. keeps P (f i)) \<Longrightarrow> keeps P (requireAuth sess f)"
  unfolding requireAuth_def by (cases sess) (simp_all add: keeps_respond)

lemma keeps_if: "keeps P a \<Longrightarrow> keeps P b \<Longrightarrow> keeps P (if c then a else b)"
  by simp

lemma keeps_case_option:
  "keeps P a \<Longrightarrow> (\<And>x. keeps P (f x)) \<Longrightarrow> keeps P (case v of None \<Rightarrow> a | Some x \<Rightarrow> f x)"
  by (cases v) simp_all

lemma keeps_session_destroy: "keeps P session_destroy"
  by (simp add: keeps_def session_destroy_def)

lemma keeps_handle:
  assumes "keeps P m" and "P s"
  shows "P (snd (handle m k s))"
proof -
  from assms have "case m k s of Throw e s' \<Rightarrow> P s' | Ok a k' s' \<Rightarrow> P s'"
    by (simp add: keeps_def)
  then show ?thesis by (cases "m k s") (simp_all add: handle_def)
qed

subsection \<open>Routes other than the withdrawal request leave the money columns alone\<close>

lemma grows_refl: "grows s s"
  unfolding grows_def
  by (intro conjI exI [of _ "users s"] exI [of _ "[]"])
     (simp_all add: list_all2_same same_money_def)

lemma grows_other_tables:
  assumes "grows s0 s" and "users s' = users s" and "withdrawals s' = withdrawals s"
  shows "grows s0 s'"
  using assms by (simp add: grows_def)

lemma grows_map_users:
  assumes g: "grows s0 s" and sg: "\<And>u. same_money (g u) u"
  shows "grows s0 (s\<lparr>users := map g (users s)\<rparr>)"
proof -
  from g obtain us new where w: "withdrawals s = withdrawals s0"
    and u: "users s = us @ new" and l: "list_all2 same_money us (users s0)"
    and n: "list_all new_account new"
    unfolding grows_def by blast
  have tr: "same_money x y \<Longrightarrow> same_money (g x) y" for x y
    using sg [of x] by (simp add: same_money_def)
  have "list_all2 same_money (map g us) (users s0)"
    unfolding list_all2_map1 by (rule list_all2_mono [OF l]) (rule tr)
  moreover have ng: "new_account (g x)" if "new_account x" for x
    using sg [of x] that by (simp add: new_account_def same_money_def)
  have "list_all new_account (map g new)"
    using n ng unfolding list_all_iff by auto
  ultimately show ?thesis
    unfolding grows_def using w u
    by (intro conjI exI [of _ "map g us"] exI [of _ "map g new"]) simp_all
qed

lemma grows_update_users:
  assumes g: "grows s0 s" and same: "\<And>u. same_money (f u) u"
  shows "grows s0 (s\<lparr>users := map (\<lambda>u. if p u then f u else u) (users s)\<rparr>)"
proof (rule grows_map_users [OF g])
  fix u
  show "same_money (if p u then f u else u) u"
    using same [of u] by (simp add: same_money_def)
qed

lemma grows_insert_user:
  assumes g: "grows s0 s" and n: "new_account row"
  shows "grows s0 (s\<lparr>users := users s @ [row]\<rparr>)"
proof -
  from g obtain us new where w: "withdrawals s = withdrawals s0"
    and u: "users s = us @ new" and l: "list_all2 same_money us (users s0)"
    and nn: "list_all new_account new"
    unfolding grows_def by blast
  show ?thesis
    unfolding grows_def using w u l nn n
    by (intro conjI exI [of _ us] exI [of _ "new @ [row]"]) simp_all
qed

lemma keeps_update_users:
  "(\<And>u. same_money (f u) u) \<Longrightarrow> keeps (grows s0) (await (update_users p f))"
  by (rule keeps_await) (auto simp: update_users_def intro: grows_update_users)

lemma keeps_update_videos: "keeps (grows s0) (await (update_videos p f))"
  by (rule keeps_await) (auto simp: update_videos_def elim: grows_other_tables)

lemma keeps_insert_user: "keeps (grows s0) (await (insert_user e un pw dn))"
  by (rule keeps_await)
     (auto simp: insert_user_def Let_def new_account_def split: if_splits intro!: grows_insert_user)

lemma keeps_insert_video: "keeps (grows s0) (await (insert_video i))"
  by (rule keeps_await)
     (auto simp: insert_video_def Let_def split: if_splits elim: grows_other_tables)

lemma keeps_insert_like: "keeps (grows s0) (await (insert_like i v))"
  by (rule keeps_await)
     (auto simp: insert_like_def split: if_splits elim: grows_other_tables)

lemma keeps_delete_like: "keeps (grows s0) (await (delete_like i))"
  by (rule keeps_await) (auto simp: delete_like_def elim: grows_other_tables)

lemma keeps_insert_comment: "keeps (grows s0) (await (insert_comment i v pa))"
  by (rule keeps_await)
     (auto simp: insert_comment_def Let_def split: if_splits elim: grows_other_tables)

lemma keeps_insert_follow: "keeps (grows s0) (await (insert_follow i j))"
  by (rule keeps_await)
     (auto simp: insert_follow_def split: if_splits elim: grows_other_tables)

lemma keeps_delete_follow: "keeps (grows s0) (await (delete_follow i))"
  by (rule keeps_await) (auto simp: delete_follow_def elim: grows_other_tables)

lemma keeps_insert_notification: "keeps (grows s0) (await (insert_notification i ty ti))"
  by (rule keeps_await)
     (auto simp: insert_notification_def split: if_splits elim: grows_other_tables)

lemma keeps_mark_all_read: "keeps (grows s0) (await (mark_all_read i))"
  by (rule keeps_await) (auto simp: mark_all_read_def elim: grows_other_tables)

lemmas keeps_rules =
  keeps_ret keeps_respond keeps_throw keeps_bnd keeps_query keeps_requireAuth keeps_if
  keeps_case_option keeps_session_destroy keeps_update_users keeps_update_videos
  keeps_insert_user keeps_insert_video keeps_insert_like keeps_delete_like
  keeps_insert_comment keeps_insert_follow keeps_delete_follow keeps_insert_notification
  keeps_mark_all_read

lemma keeps_post_register: "keeps (grows s0) (post_register em un pw dn)"
  unfolding post_register_def
  by (cases em; cases un; cases pw) (auto intro!: keeps_rules)

lemma keeps_post_login: "keeps (grows s0) (post_login em pw)"
  unfolding post_login_def by (intro keeps_rules)

lemma keeps_post_like: "keeps (grows s0) (post_like sess v)"
  unfolding post_like_def by (intro keeps_rules)

lemma keeps_post_comment: "keeps (grows s0) (post_comment sess v c pa)"
  unfolding post_comment_def by (intro keeps_rules)

lemma keeps_get_user: "keeps (grows s0) (get_user sess i)"
  unfolding get_user_def by (intro keeps_rules)

lemma keeps_post_follow: "keeps (grows s0) (post_follow sess i)"
  unfolding post_follow_def by (intro keeps_rules) (simp_all add: same_money_def)

lemma keeps_delete_unfollow: "keeps (grows s0) (delete_unfollow sess i)"
  unfolding delete_unfollow_def by (intro keeps_rules) (simp_all add: same_money_def)

lemma keeps_route:
  "\<not> is_withdrawal r \<Longrightarrow> keeps (grows s0) (route sess r)"
proof (cases r)
  case (PostWithdrawal b)
  assume "\<not> is_withdrawal r"
  with PostWithdrawal show ?thesis by (simp add: is_withdrawal_def)
qed (simp_all add: keeps_post_register keeps_post_login keeps_post_like keeps_post_comment
      keeps_get_user keeps_post_follow keeps_delete_unfollow,
     (simp add: get_me_def post_logout_def get_feed_def get_trending_def post_upload_def
        get_comments_def get_my_videos_def get_my_stats_def get_earnings_stats_def
        get_user_videos_def get_notifications_def post_read_all_def get_withdrawals_def,
      intro keeps_rules)+)

lemma step_grows: "\<not> is_withdrawal r \<Longrightarrow> grows s (snd (step k sess r s))"
  unfolding step_def by (rule keeps_handle [OF keeps_route grows_refl])

subsection \<open>Looking an account up after a step\<close>

lemma find_user_id: "find_user i s = Some u \<Longrightarrow> u_id u = i"
  by (auto simp: find_user_def find_Some_iff)

lemma find_related:
  assumes "list_all2 same_money us vs"
  shows "rel_option same_money (find (\<lambda>u. u_id u = i) us) (find (\<lambda>u. u_id u = i) vs)"
  using assms by (induction rule: list_all2_induct) (auto simp: same_money_def)

lemma find_append_some: "find P xs = Some x \<Longrightarrow> find P (xs @ ys) = Some x"
  by (induction xs) (auto split: if_splits)

lemma find_append_cases:
  "find P (xs @ ys) = Some z \<Longrightarrow> find P xs = Some z \<or> (find P xs = None \<and> find P ys = Some z)"
  by (induction xs) (auto split: if_splits)

lemma find_in_set: "find P xs = Some z \<Longrightarrow> z \<in> set xs"
  by (auto simp: find_Some_iff)

lemma grows_find_user:
  assumes "grows s s'" and "find_user i s = Some u"
  shows "\<exists>u'. find_user i s' = Some u' \<and> same_money u' u"
proof -
  from assms(1) obtain us new where u: "users s' = us @ new"
    and l: "list_all2 same_money us (users s)"
    unfolding grows_def by blast
  from find_related [OF l, of i] assms(2)
  obtain u' where "find (\<lambda>u. u_id u = i) us = Some u'" and "same_money u' u"
    by (auto simp: find_user_def option_rel_Some2)
  then show ?thesis by (auto simp: find_user_def u find_append_some)
qed

lemma grows_find_user_rev:
  assumes "grows s s'" and "find_user i s' = Some u'"
  shows "(\<exists>u. find_user i s = Some u \<and> same_money u' u) \<or>
         (find_user i s = None \<and> new_account u')"
proof -
  from assms(1) obtain us new where u: "users s' = us @ new"
    and l: "list_all2 same_money us (users s)" and n: "list_all new_account new"
    unfolding grows_def by blast
  note rel = find_related [OF l, of i]
  from assms(2) have "find (\<lambda>u. u_id u = i) (us @ new) = Some u'"
    by (simp add: find_user_def u)
  then show ?thesis
  proof (rule find_append_cases [THEN disjE])
    assume "find (\<lambda>u. u_id u = i) us = Some u'"
    with rel show ?thesis by (auto simp: find_user_def option_rel_Some1)
  next
    assume h: "find (\<lambda>u. u_id u = i) us = None \<and> find (\<lambda>u. u_id u = i) new = Some u'"
    then have "u' \<in> set new" by (auto dest: find_in_set)
    with n have "new_account u'" by (simp add: list_all_iff)
    moreover from h rel have "find_user i s = None" by (simp add: find_user_def)
    ultimately show ?thesis by simp
  qed
qed

lemma grows_pending_sum: "grows s s' \<Longrightarrow> pending_sum i s' = pending_sum i s"
  by (simp add: grows_def pending_sum_def)

lemma deduct_id [simp]: "u_id (deduct j a u) = u_id u"
  by (simp add: deduct_def)

lemma find_map_same_id:
  assumes "\<And>x. key (g x) = key x"
  shows "find (\<lambda>x. key x = i) (map g xs) = map_option g (find (\<lambda>x. key x = i) xs)"
  by (induction xs) (simp_all add: assms)

lemma find_user_deduct:
  assumes "users s' = map (deduct j a) (users s)"
  shows "find_user i s' = map_option (deduct j a) (find_user i s)"
  unfolding find_user_def assms by (rule find_map_same_id) simp

subsection \<open>Every outcome of the withdrawal request\<close>

lemma insert_withdrawal_Inr:
  assumes "insert_withdrawal j (req_amount b) (req_walletAddress b) (req_network b) s = Inr (row, s1)"
  shows "row = pending_row j b s \<and> s1 = s\<lparr>withdrawals := withdrawals s @ [pending_row j b s]\<rparr> \<and>
         req_walletAddress b \<noteq> None \<and> req_network b \<noteq> None \<and> fits_precision18 (req_amount b)"
  using assms
  by (auto simp: insert_withdrawal_def store_decimal_def pending_row_def Let_def
      split: option.splits if_splits)

lemma update_balance_Inr:
  assumes "update_balance j a s = Inr (x, s2)"
  shows "s2 = s\<lparr>users := map (deduct j a) (users s)\<rparr>"
  using assms by (simp add: update_balance_def split: if_splits)

lemma insert_notification_Inr:
  assumes "insert_notification j ty ti s = Inr (x, s3)"
  shows "\<exists>n. s3 = s\<lparr>notifications := notifications s @ [n]\<rparr>"
  using assms by (auto simp: insert_notification_def split: if_splits)

lemma post_withdrawals_outcome:
  assumes "step k sess (PostWithdrawal b) s = (resp, s')"
  shows "(s' = s \<and> code resp \<noteq> 200) \<or>
         (\<exists>j u. sess = Some j \<and> find_user j s = Some u \<and>
            amount_number b \<le> parse_balance u \<and> 10 \<le> amount_number b \<and>
            req_walletAddress b \<noteq> None \<and> req_network b \<noteq> None \<and>
            fits_precision18 (req_amount b) \<and>
            ((s' = s\<lparr>withdrawals := withdrawals s @ [pending_row j b s]\<rparr> \<and> code resp = 500) \<or>
             (s' = s\<lparr>users := map (deduct j (req_amount b)) (users s),
                     withdrawals := withdrawals s @ [pending_row j b s]\<rparr> \<and> code resp = 500) \<or>
             (\<exists>n. s' = s\<lparr>users := map (deduct j (req_amount b)) (users s),
                     withdrawals := withdrawals s @ [pending_row j b s],
                     notifications := notifications s @ [n]\<rparr> \<and>
                  resp = \<lparr>code = 200, json = WithdrawalRow (pending_row j b s)\<rparr>)))"
proof (cases sess)
  case None
  with assms show ?thesis
    by (auto simp: step_def post_withdrawals_def requireAuth_def handle_def respond_def ret_def)
next
  case (Some j)
  show ?thesis
  proof (cases "k = Some 0 \<or> find_user j s = None \<or>
                (\<exists>u. find_user j s = Some u \<and>
                     (parse_balance u < amount_number b \<or> amount_number b < 10))")
    case True
    with assms Some show ?thesis
      by (auto simp: step_def post_withdrawals_def requireAuth_def handle_def respond_def
          ret_def bnd_def query_def await_def split: if_splits)
  next
    case False
    then obtain u where k0: "k \<noteq> Some 0" and u: "find_user j s = Some u"
      and le: "amount_number b \<le> parse_balance u" and ten: "10 \<le> amount_number b"
      by (cases "find_user j s") auto
    define k1 where "k1 = map_option (\<lambda>n. n - 1) k"
    define rest where "rest = (\<lambda>row.
       bnd (await (update_balance j (req_amount b))) (\<lambda>_.
       bnd (await (insert_notification j ''withdrawal'' ''Withdrawal Requested''))
         (\<lambda>_. respond 200 (WithdrawalRow row))))"
    have eq: "step k sess (PostWithdrawal b) s =
      handle (bnd (await (insert_withdrawal j (req_amount b) (req_walletAddress b) (req_network b))) rest)
        k1 s"
      using Some k0 u le ten
      by (simp add: step_def post_withdrawals_def requireAuth_def handle_def bnd_def query_def
          await_def rest_def k1_def)
    let ?ins = "insert_withdrawal j (req_amount b) (req_walletAddress b) (req_network b) s"
    show ?thesis
    proof (cases "k1 = Some 0 \<or> isl ?ins")
      case True
      with assms eq show ?thesis
        by (auto simp: handle_def bnd_def await_def isl_def split: if_splits)
    next
      case False
      then obtain row s1 where ins: "?ins = Inr (row, s1)" and k10: "k1 \<noteq> Some 0"
        by (cases ?ins) auto
      note inv = insert_withdrawal_Inr [OF ins]
      define k2 where "k2 = map_option (\<lambda>n. n - 1) k1"
      have eq2: "step k sess (PostWithdrawal b) s = handle (rest row) k2 s1"
        using eq ins k10 by (simp add: handle_def bnd_def await_def k2_def)
      let ?upd = "update_balance j (req_amount b) s1"
      show ?thesis
      proof (cases "k2 = Some 0 \<or> isl ?upd")
        case True
        with assms eq2 have "s' = s1 \<and> code resp = 500"
          by (auto simp: rest_def handle_def bnd_def await_def isl_def split: if_splits)
        with inv Some u le ten show ?thesis by auto
      next
        case False
        then obtain x s2 where upd: "?upd = Inr (x, s2)" and k20: "k2 \<noteq> Some 0"
          by (cases ?upd) auto
        have s2: "s2 = s\<lparr>users := map (deduct j (req_amount b)) (users s),
                     withdrawals := withdrawals s @ [pending_row j b s]\<rparr>"
          using update_balance_Inr [OF upd] inv by simp
        define k3 where "k3 = map_option (\<lambda>n. n - 1) k2"
        let ?note = "insert_notification j ''withdrawal'' ''Withdrawal Requested'' s2"
        have eq3: "step k sess (PostWithdrawal b) s =
          handle (bnd (await (insert_notification j ''withdrawal'' ''Withdrawal Requested''))
                   (\<lambda>_. respond 200 (WithdrawalRow row))) k3 s2"
          using eq2 upd k20 by (simp add: rest_def handle_def bnd_def await_def k3_def)
        show ?thesis
        proof (cases "k3 = Some 0 \<or> isl ?note")
          case True
          with assms eq3 have "s' = s2 \<and> code resp = 500"
            by (auto simp: handle_def bnd_def await_def isl_def split: if_splits)
          with inv s2 Some u le ten show ?thesis by auto
        next
          case False
          then obtain y s3 where nt: "?note = Inr (y, s3)" and k30: "k3 \<noteq> Some 0"
            by (cases ?note) auto
          from insert_notification_Inr [OF nt] obtain n where
            s3: "s3 = s2\<lparr>notifications := notifications s2 @ [n]\<rparr>" by blast
          from assms eq3 nt k30 have "s' = s3 \<and> resp = \<lparr>code = 200, json = WithdrawalRow row\<rparr>"
            by (auto simp: handle_def bnd_def await_def respond_def ret_def)
          with inv s2 s3 Some u le ten show ?thesis by auto
        qed
      qed
    qed
  qed
qed

lemma withdrawal_users:
  assumes "step k sess (PostWithdrawal b) s = (resp, s')"
  shows "users s' = users s \<or>
         (\<exists>j. sess = Some j \<and> users s' = map (deduct j (req_amount b)) (users s))"
  using post_withdrawals_outcome [OF assms] by auto

lemma post_withdrawals_success:
  assumes u: "find_user i s = Some u" and le: "amount_number b \<le> parse_balance u"
    and ten: "10 \<le> amount_number b" and w: "req_walletAddress b \<noteq> None"
    and n: "req_network b \<noteq> None" and fits: "fits_precision18 (req_amount b)"
    and room: "\<forall>v \<in> set (users s). u_id v = i \<longrightarrow>
                 (case availableBalance v of None \<Rightarrow> True
                  | Some x \<Rightarrow> fits_precision18 (x - req_amount b))"
  shows "step None (Some i) (PostWithdrawal b) s =
           (\<lparr>code = 200, json = WithdrawalRow (pending_row i b s)\<rparr>,
            s\<lparr>users := map (deduct i (req_amount b)) (users s),
              withdrawals := withdrawals s @ [pending_row i b s],
              notifications := notifications s @
                [\<lparr>n_id = gen_random_uuid (map n_id (notifications s)), n_userId = i,
                  n_type = ''withdrawal'', title = ''Withdrawal Requested'',
                  isRead = Some False\<rparr>]\<rparr>)"
proof -
  let ?s1 = "s\<lparr>withdrawals := withdrawals s @ [pending_row i b s]\<rparr>"
  let ?s2 = "?s1\<lparr>users := map (deduct i (req_amount b)) (users s)\<rparr>"
  have ins: "insert_withdrawal i (req_amount b) (req_walletAddress b) (req_network b) s =
               Inr (pending_row i b s, ?s1)"
    using u w n fits
    by (auto simp: insert_withdrawal_def store_decimal_def pending_row_def Let_def)
  have "\<not> (\<exists>v \<in> set (users ?s1). u_id v = i \<and>
            (case availableBalance v of None \<Rightarrow> False
             | Some x \<Rightarrow> \<not> fits_precision18 (x - req_amount b)))"
    using room by (auto split: option.splits)
  then have upd: "update_balance i (req_amount b) ?s1 = Inr ((), ?s2)"
    unfolding update_balance_def by simp
  have "find_user i ?s2 = map_option (deduct i (req_amount b)) (find_user i s)"
    by (rule find_user_deduct) simp
  with u have "find_user i ?s2 \<noteq> None" by simp
  then have nt: "insert_notification i ''withdrawal'' ''Withdrawal Requested'' ?s2 =
      Inr ((), ?s2\<lparr>notifications := notifications s @
                [\<lparr>n_id = gen_random_uuid (map n_id (notifications s)), n_userId = i,
                  n_type = ''withdrawal'', title = ''Withdrawal Requested'',
                  isRead = Some False\<rparr>]\<rparr>)"
    by (simp add: insert_notification_def)
  show ?thesis
    using u le ten ins upd nt
    by (simp add: step_def post_withdrawals_def requireAuth_def handle_def bnd_def query_def
        await_def respond_def ret_def)
qed

text \<open>What the first check refuses: an amount greater than the balance as doubles.\<close>

lemma double_guard_refuses:
  assumes "find_user i s = Some u" and "k \<noteq> Some 0"
    and "parse_balance u < amount_number b"
  shows "step k (Some i) (PostWithdrawal b) s =
           (\<lparr>code = 400, json = Message ''Insufficient balance''\<rparr>, s)"
  using assms
  by (simp add: step_def post_withdrawals_def requireAuth_def handle_def bnd_def query_def
      await_def respond_def ret_def)

lemmas eval_defs = step_def post_withdrawals_def handle_def bnd_def query_def await_def
  respond_def ret_def requireAuth_def insert_withdrawal_def update_balance_def
  insert_notification_def store_decimal_def fits_precision18_def round_scale8_def
  find_user_def parse_balance_def parseFloat_def amount_number_def double_values
  deduct_def gen_random_uuid_def Let_def
  ledger_db_def creator_def payout_def payout_row_def payout_note_def wallet_def
  creator_after_def db_after_def insufficient_balance_def below_minimum_def
  large_balance_def large_amount_def full_balance_def

section \<open>The claims\<close>

text \<open>
  Claim C1. The handler means to keep the balance from going negative by refusing an
  amount greater than the balance, but it compares the two as doubles, and a balance of
  seventeen significant digits is not told apart from the next larger amount. With a
  balance of 134217728.00000002, a request of 134217728.00000003 passes both checks,
  and the update stores a balance of -0.00000001.
\<close>

theorem balance_goes_negative:
  "0 \<le> decimal_or_zero (availableBalance (creator large_balance)) \<and>
   find_user 1 (ledger_db large_balance) = Some (creator large_balance) \<and>
   amount_number (payout large_amount wallet ''BEP20'') = parse_balance (creator large_balance) \<and>
   find_user 1 (run [(None, Some 1, PostWithdrawal (payout large_amount wallet ''BEP20''))]
                  (ledger_db large_balance)) =
     Some (creator_after large_balance (- 1 / 100000000)) \<and>
   decimal_or_zero (availableBalance (creator_after large_balance (- 1 / 100000000))) < 0"
  by (simp add: decimal_or_zero_def eval_defs)

text \<open>
  Claim C3. An amount greater than the balance is refused only when it is greater as a
  double. With a balance of 134217728.00000002, a request of 134217728.00000003 is
  answered 200, its row is created and the amount is deducted; with a balance of
  9999999999.99999999, a request of 10000000000 passes the check and is answered 500
  when the insert overflows.
\<close>

theorem greater_amount_not_refused:
  "decimal_or_zero (availableBalance (creator large_balance)) <
     req_amount (payout large_amount wallet ''BEP20'') \<and>
   step None (Some 1) (PostWithdrawal (payout large_amount wallet ''BEP20''))
     (ledger_db large_balance) =
     (\<lparr>code = 200, json = WithdrawalRow (payout_row large_amount wallet ''BEP20'')\<rparr>,
      db_after large_balance (- 1 / 100000000) large_amount wallet ''BEP20'') \<and>
   decimal_or_zero (availableBalance (creator full_balance)) <
     req_amount (payout 10000000000 wallet ''BEP20'') \<and>
   step None (Some 1) (PostWithdrawal (payout 10000000000 wallet ''BEP20''))
     (ledger_db full_balance) =
     (\<lparr>code = 500, json = Message ''numeric field overflow''\<rparr>, ledger_db full_balance)"
  by (simp add: decimal_or_zero_def eval_defs)

text \<open>
  Claim C2, as stated, fails: the money columns keep eight fractional digits, so a
  successful request whose amount has nine is stored rounded in the withdrawal row
  while the balance is rounded after the subtraction. With a balance of 50.00000001 and
  a request of 10.000000005 the row holds 10.00000001 and the balance becomes
  40.00000001: the right-hand side is 50.00000002. (Were ties rounded to even, or the
  ninth digit cut off, the right-hand side would be 50.00000000 at this input.)
\<close>

theorem ledger_equation_counterexample:
  "ledger_balanced (creator (5000000001 / 100000000)) (ledger_db (5000000001 / 100000000)) \<and>
   step None (Some 1) (PostWithdrawal (payout (10000000005 / 1000000000) wallet ''BEP20''))
     (ledger_db (5000000001 / 100000000)) =
     (\<lparr>code = 200,
       json = WithdrawalRow (payout_row (1000000001 / 100000000) wallet ''BEP20'')\<rparr>,
      db_after (5000000001 / 100000000) (4000000001 / 100000000) (1000000001 / 100000000)
        wallet ''BEP20'') \<and>
   find_user 1 (db_after (5000000001 / 100000000) (4000000001 / 100000000)
                  (1000000001 / 100000000) wallet ''BEP20'') =
     Some (creator_after (5000000001 / 100000000) (4000000001 / 100000000)) \<and>
   \<not> ledger_balanced (creator_after (5000000001 / 100000000) (4000000001 / 100000000))
       (db_after (5000000001 / 100000000) (4000000001 / 100000000) (1000000001 / 100000000)
          wallet ''BEP20'')"
  by (simp add: ledger_balanced_def decimal_or_zero_def pending_sum_def eval_defs)

text \<open>
  Claim C2, amended. For every account whose stored balance has at most eight fractional
  digits, the equation totalEarnings = availableBalance + withdrawnAmount + sum of the
  account's pending withdrawal amounts is preserved by every call to a route other than
  the withdrawal request, and by a withdrawal request that is not answered 500 and
  whose amount has at most eight fractional digits: a successful request of amount a
  lowers the balance by a and raises the pending sum by a.
\<close>

theorem ledger_equation_preserved:
  assumes u: "find_user i s = Some u" and bal: "ledger_balanced u s"
    and scale: "round_scale8 (decimal_or_zero (availableBalance u)) =
                  decimal_or_zero (availableBalance u)"
    and st: "step k sess r s = (resp, s')"
    and cond: "\<forall>b. r = PostWithdrawal b \<longrightarrow>
                 code resp \<noteq> 500 \<and> round_scale8 (req_amount b) = req_amount b"
  shows "\<exists>u'. find_user i s' = Some u' \<and> ledger_balanced u' s'"
proof (cases "is_withdrawal r")
  case False
  from step_grows [OF False, of s k sess] st have g: "grows s s'" by simp
  from grows_find_user [OF g u] obtain u' where
    "find_user i s' = Some u'" and "same_money u' u" by blast
  with bal grows_pending_sum [OF g] show ?thesis
    by (auto simp: ledger_balanced_def same_money_def)
next
  case True
  then obtain b where r: "r = PostWithdrawal b"
    by (cases r) (simp_all add: is_withdrawal_def)
  from cond r have c5: "code resp \<noteq> 500"
    and sc: "round_scale8 (req_amount b) = req_amount b" by auto
  from post_withdrawals_outcome [OF st [unfolded r]] c5
  consider (same) "s' = s"
    | (ok) j u0 n where "sess = Some j" and "find_user j s = Some u0"
        and "amount_number b \<le> parse_balance u0" and "10 \<le> amount_number b"
        and "s' = s\<lparr>users := map (deduct j (req_amount b)) (users s),
                     withdrawals := withdrawals s @ [pending_row j b s],
                     notifications := notifications s @ [n]\<rparr>"
    by auto
  then show ?thesis
  proof cases
    case same
    with u bal show ?thesis by simp
  next
    case ok
    have "users s' = map (deduct j (req_amount b)) (users s)" by (simp add: ok(5))
    from find_user_deduct [OF this, of i] u
    have fu: "find_user i s' = Some (deduct j (req_amount b) u)" by simp
    have ps: "pending_sum i s' = pending_sum i s + (if i = j then req_amount b else 0)"
      using sc by (simp add: ok(5) pending_sum_def pending_row_def)
    note id = find_user_id [OF u]
    show ?thesis
    proof (cases "i = j")
      case True
      with ok(2) u have u0: "u0 = u" by simp
      from ok(3,4) u0 obtain b0 where b0: "availableBalance u = Some b0"
        by (cases "availableBalance u") (auto simp: parse_balance_def parseFloat_def)
      from scale b0 have "round_scale8 b0 = b0" by (simp add: decimal_or_zero_def)
      with sc have "round_scale8 (b0 - req_amount b) = b0 - req_amount b"
        by (rule round_scale8_diff)
      with bal b0 ps True id have "ledger_balanced (deduct j (req_amount b) u) s'"
        by (simp add: ledger_balanced_def deduct_def decimal_or_zero_def)
      with fu show ?thesis by blast
    next
      case False
      with id have "deduct j (req_amount b) u = u" by (simp add: deduct_def)
      with fu bal ps False id show ?thesis by (simp add: ledger_balanced_def)
    qed
  qed
qed

theorem ledger_equation_preserved_witness:
  "find_user 1 (ledger_db 50) = Some (creator 50) \<and> ledger_balanced (creator 50) (ledger_db 50) \<and>
   round_scale8 (decimal_or_zero (availableBalance (creator 50))) =
     decimal_or_zero (availableBalance (creator 50)) \<and>
   step None (Some 1) (PostWithdrawal (payout 20 wallet ''BEP20'')) (ledger_db 50) =
     (\<lparr>code = 200, json = WithdrawalRow (payout_row 20 wallet ''BEP20'')\<rparr>,
      db_after 50 30 20 wallet ''BEP20'') \<and>
   round_scale8 (req_amount (payout 20 wallet ''BEP20'')) = req_amount (payout 20 wallet ''BEP20'') \<and>
   find_user 1 (db_after 50 30 20 wallet ''BEP20'') = Some (creator_after 50 30) \<and>
   ledger_balanced (creator_after 50 30) (db_after 50 30 20 wallet ''BEP20'')"
proof -
  let ?r = "PostWithdrawal (payout 20 wallet ''BEP20'')"
  let ?resp = "\<lparr>code = 200, json = WithdrawalRow (payout_row 20 wallet ''BEP20'')\<rparr>"
  have f: "find_user 1 (ledger_db 50) = Some (creator 50)" by (simp add: eval_defs)
  have b: "ledger_balanced (creator 50) (ledger_db 50)"
    by (simp add: ledger_balanced_def decimal_or_zero_def pending_sum_def eval_defs)
  have sc: "round_scale8 (decimal_or_zero (availableBalance (creator 50))) =
              decimal_or_zero (availableBalance (creator 50))"
    by (simp add: decimal_or_zero_def eval_defs)
  have st: "step None (Some 1) ?r (ledger_db 50) = (?resp, db_after 50 30 20 wallet ''BEP20'')"
    by (simp add: eval_defs)
  have a: "round_scale8 (req_amount (payout 20 wallet ''BEP20'')) =
             req_amount (payout 20 wallet ''BEP20'')"
    by (simp add: eval_defs)
  have c: "\<forall>b. ?r = PostWithdrawal b \<longrightarrow>
             code ?resp \<noteq> 500 \<and> round_scale8 (req_amount b) = req_amount b"
    using a by simp
  have g: "find_user 1 (db_after 50 30 20 wallet ''BEP20'') = Some (creator_after 50 30)"
    by (simp add: eval_defs)
  from ledger_equation_preserved [OF f b sc st c] g
  have "ledger_balanced (creator_after 50 30) (db_after 50 30 20 wallet ''BEP20'')" by simp
  with f b sc st a g show ?thesis by simp
qed




text \<open>
  Claim C5, as stated, fails: the insert of the withdrawal row and the balance update
  are two statements with no transaction around them. When the update rejects, the
  row stays and the balance is not deducted; the request is answered 500.
\<close>

theorem row_without_deduction_counterexample:
  "step (Some 2) (Some 1) (PostWithdrawal (payout 20 wallet ''BEP20'')) (ledger_db 50) =
     (\<lparr>code = 500, json = Message ''database error''\<rparr>,
      (ledger_db 50)\<lparr>withdrawals := [payout_row 20 wallet ''BEP20'']\<rparr>) \<and>
   users ((ledger_db 50)\<lparr>withdrawals := [payout_row 20 wallet ''BEP20'']\<rparr>) = users (ledger_db 50)"
  by (simp add: eval_defs)

text \<open>
  Claim C5, amended. A withdrawal request answered with anything but 200 or 500 (the
  validation failures 400, 401 and 404) changes nothing. A 200 answer means that the
  pending row was inserted and the balance deducted, both. The two writes are separate
  statements, the insert first: the balance is never deducted without the row being
  there, and a request that ends in 500 has written nothing, the row alone, or the row
  and the deduction.
\<close>

theorem withdrawal_effects:
  assumes "step k sess (PostWithdrawal b) s = (resp, s')"
  shows "(code resp \<noteq> 200 \<and> code resp \<noteq> 500 \<longrightarrow> s' = s) \<and>
         (code resp = 200 \<longrightarrow>
            (\<exists>j. sess = Some j \<and> json resp = WithdrawalRow (pending_row j b s) \<and>
                 withdrawals s' = withdrawals s @ [pending_row j b s] \<and>
                 users s' = map (deduct j (req_amount b)) (users s))) \<and>
         (users s' \<noteq> users s \<longrightarrow>
            (\<exists>j. sess = Some j \<and> withdrawals s' = withdrawals s @ [pending_row j b s] \<and>
                 users s' = map (deduct j (req_amount b)) (users s))) \<and>
         (code resp = 500 \<longrightarrow>
            s' = s \<or>
            (\<exists>j. sess = Some j \<and>
                 (s' = s\<lparr>withdrawals := withdrawals s @ [pending_row j b s]\<rparr> \<or>
                  s' = s\<lparr>users := map (deduct j (req_amount b)) (users s),
                         withdrawals := withdrawals s @ [pending_row j b s]\<rparr>)))"
  using post_withdrawals_outcome [OF assms] by auto

theorem withdrawal_effects_witness:
  "step None (Some 1) (PostWithdrawal (payout 20 wallet ''BEP20'')) (ledger_db 50) =
     (\<lparr>code = 200, json = WithdrawalRow (payout_row 20 wallet ''BEP20'')\<rparr>,
      db_after 50 30 20 wallet ''BEP20'') \<and>
   withdrawals (db_after 50 30 20 wallet ''BEP20'') =
     withdrawals (ledger_db 50) @
       [pending_row 1 (payout 20 wallet ''BEP20'') (ledger_db 50)] \<and>
   users (db_after 50 30 20 wallet ''BEP20'') =
     map (deduct 1 (req_amount (payout 20 wallet ''BEP20''))) (users (ledger_db 50))"
proof -
  have st: "step None (Some 1) (PostWithdrawal (payout 20 wallet ''BEP20'')) (ledger_db 50) =
     (\<lparr>code = 200, json = WithdrawalRow (payout_row 20 wallet ''BEP20'')\<rparr>,
      db_after 50 30 20 wallet ''BEP20'')"
    by (simp add: eval_defs)
  from withdrawal_effects [OF st] st show ?thesis by auto
qed

text \<open>
  Claim C6. For a user whose available balance is 50, a withdrawal request of 20 (with a
  wallet address and a network, and no database fault) is answered 200 with the created
  row, whose status is pending and whose amount is 20; the row is the one appended to
  the withdrawals table, and the user's available balance is 30 afterwards. The users'
  ids are unique, as the primary key makes them.
\<close>

theorem withdraw_20_of_50:
  assumes u: "find_user i s = Some u" and pk: "distinct (map u_id (users s))"
    and bal: "availableBalance u = Some 50" and a: "req_amount b = 20"
    and w: "req_walletAddress b \<noteq> None" and n: "req_network b \<noteq> None"
  shows "fst (step None (Some i) (PostWithdrawal b) s) =
           \<lparr>code = 200, json = WithdrawalRow (pending_row i b s)\<rparr> \<and>
         status (pending_row i b s) = ''pending'' \<and> amount (pending_row i b s) = 20 \<and>
         w_userId (pending_row i b s) = i \<and>
         withdrawals (snd (step None (Some i) (PostWithdrawal b) s)) =
           withdrawals s @ [pending_row i b s] \<and>
         find_user i (snd (step None (Some i) (PostWithdrawal b) s)) =
           Some (u\<lparr>availableBalance := Some 30\<rparr>)"
proof -
  have only: "v = u" if "v \<in> set (users s)" and "u_id v = i" for v
  proof -
    from u have "u \<in> set (users s)" and "u_id u = i"
      by (auto simp: find_user_def find_Some_iff)
    with pk that show ?thesis by (metis distinct_map inj_onD)
  qed
  have room: "\<forall>v \<in> set (users s). u_id v = i \<longrightarrow>
                 (case availableBalance v of None \<Rightarrow> True
                  | Some x \<Rightarrow> fits_precision18 (x - req_amount b))"
    using only bal a by (auto simp: fits_precision18_def round_scale8_def)
  have le: "amount_number b \<le> parse_balance u"
    using bal a
    by (simp add: amount_number_def parse_balance_def parseFloat_def to_double_20 to_double_50)
  have ten: "10 \<le> amount_number b"
    using a by (simp add: amount_number_def to_double_20)
  have fits: "fits_precision18 (req_amount b)"
    using a by (simp add: fits_precision18_def round_scale8_def)
  note st = post_withdrawals_success [OF u le ten w n fits room]
  have "find_user i (snd (step None (Some i) (PostWithdrawal b) s)) =
          map_option (deduct i (req_amount b)) (find_user i s)"
    unfolding st by (rule find_user_deduct) simp
  also have "\<dots> = Some (u\<lparr>availableBalance := Some 30\<rparr>)"
    using u bal a find_user_id [OF u] by (simp add: deduct_def round_scale8_def)
  finally show ?thesis
    using st a by (simp add: pending_row_def round_scale8_def)
qed

theorem withdraw_20_of_50_witness:
  "find_user 1 (ledger_db 50) = Some (creator 50) \<and>
   distinct (map u_id (users (ledger_db 50))) \<and>
   availableBalance (creator 50) = Some 50 \<and>
   req_amount (payout 20 wallet ''BEP20'') = 20 \<and>
   fst (step None (Some 1) (PostWithdrawal (payout 20 wallet ''BEP20'')) (ledger_db 50)) =
     \<lparr>code = 200, json = WithdrawalRow (payout_row 20 wallet ''BEP20'')\<rparr> \<and>
   withdrawals (snd (step None (Some 1) (PostWithdrawal (payout 20 wallet ''BEP20''))
                  (ledger_db 50))) = [payout_row 20 wallet ''BEP20''] \<and>
   find_user 1 (snd (step None (Some 1) (PostWithdrawal (payout 20 wallet ''BEP20''))
                  (ledger_db 50))) = Some (creator_after 50 30)"
proof -
  have f: "find_user 1 (ledger_db 50) = Some (creator 50)" by (simp add: eval_defs)
  have d: "distinct (map u_id (users (ledger_db 50)))" by (simp add: eval_defs)
  have b: "availableBalance (creator 50) = Some 50" by (simp add: eval_defs)
  have a: "req_amount (payout 20 wallet ''BEP20'') = 20" by (simp add: eval_defs)
  have w: "req_walletAddress (payout 20 wallet ''BEP20'') \<noteq> None" by (simp add: eval_defs)
  have n: "req_network (payout 20 wallet ''BEP20'') \<noteq> None" by (simp add: eval_defs)
  have row: "pending_row 1 (payout 20 wallet ''BEP20'') (ledger_db 50) =
               payout_row 20 wallet ''BEP20''"
    by (simp add: pending_row_def eval_defs)
  have after: "(creator 50)\<lparr>availableBalance := Some 30\<rparr> = creator_after 50 30"
    by (simp add: eval_defs)
  have none: "withdrawals (ledger_db 50) = []" by (simp add: eval_defs)
  from withdraw_20_of_50 [OF f d b a w n] f d b a row after none show ?thesis by simp
qed

text \<open>
  Claim C7. The handler reads \<^verbatim>\<open>walletAddress\<close> and \<^verbatim>\<open>network\<close> from the body and passes
  them to the insert without a check: a body that \<^verbatim>\<open>withdrawalRequestSchema\<close> refuses (a
  wallet address of three characters, a network outside BEP20 and ERC20) is answered
  200, its row is created and the balance is deducted.
\<close>

theorem unvalidated_body_accepted:
  "\<not> withdrawalRequestSchema (payout 20 ''abc'' ''TRC20'') \<and>
   step None (Some 1) (PostWithdrawal (payout 20 ''abc'' ''TRC20'')) (ledger_db 50) =
     (\<lparr>code = 200, json = WithdrawalRow (payout_row 20 ''abc'' ''TRC20'')\<rparr>,
      db_after 50 30 20 ''abc'' ''TRC20'')"
  by (simp add: withdrawalRequestSchema_def eval_defs)

text \<open>
  Claim C8, as stated, fails: with a balance of 5, a request of 10 is answered
  "Insufficient balance", not with the minimum message; 10 is not below the minimum.
\<close>

theorem ten_of_five_counterexample:
  "fst (step None (Some 1) (PostWithdrawal (payout 10 wallet ''BEP20'')) (ledger_db 5)) =
     insufficient_balance \<and>
   fst (step None (Some 1) (PostWithdrawal (payout 10 wallet ''BEP20'')) (ledger_db 5)) \<noteq>
     below_minimum"
  by (simp add: eval_defs)

text \<open>
  Claim C8, amended. For a user whose available balance is 5, a withdrawal request of 10
  is answered 400 "Insufficient balance", and the database stays as it was.
\<close>

theorem ten_of_five_insufficient:
  assumes "find_user i s = Some u" and "k \<noteq> Some 0" and "availableBalance u = Some 5"
    and "req_amount b = 10"
  shows "step k (Some i) (PostWithdrawal b) s = (insufficient_balance, s)"
  using assms
  by (simp add: step_def post_withdrawals_def requireAuth_def handle_def bnd_def query_def
      await_def respond_def ret_def insufficient_balance_def parse_balance_def
      parseFloat_def amount_number_def to_double_5 to_double_10)

theorem ten_of_five_insufficient_witness:
  "find_user 1 (ledger_db 5) = Some (creator 5) \<and> availableBalance (creator 5) = Some 5 \<and>
   req_amount (payout 10 wallet ''ERC20'') = 10 \<and>
   step None (Some 1) (PostWithdrawal (payout 10 wallet ''ERC20'')) (ledger_db 5) =
     (insufficient_balance, ledger_db 5)"
proof -
  have f: "find_user 1 (ledger_db 5) = Some (creator 5)" by (simp add: eval_defs)
  have k: "(None :: nat option) \<noteq> Some 0" by simp
  have b: "availableBalance (creator 5) = Some 5" by (simp add: eval_defs)
  have a: "req_amount (payout 10 wallet ''ERC20'') = 10" by (simp add: eval_defs)
  from ten_of_five_insufficient [OF f k b a] f b a show ?thesis by simp
qed

subsection \<open>The earnings columns\<close>

lemma extends_refl: "extends_earnings s s"
  by (simp add: extends_earnings_def)

lemma extends_trans:
  assumes "extends_earnings a b" and "extends_earnings b c"
  shows "extends_earnings a c"
proof -
  from assms obtain n1 n2 where
    1: "earnings_columns b = earnings_columns a @ n1"
       "\<forall>r \<in> set n1. fst (snd r) = Some 0 \<and> snd (snd r) = Some 0" and
    2: "earnings_columns c = earnings_columns b @ n2"
       "\<forall>r \<in> set n2. fst (snd r) = Some 0 \<and> snd (snd r) = Some 0"
    unfolding extends_earnings_def by blast
  show ?thesis
    unfolding extends_earnings_def using 1 2
    by (intro exI [of _ "n1 @ n2"]) auto
qed

lemma same_money_columns:
  assumes "list_all2 same_money us vs"
  shows "map (\<lambda>u. (u_id u, totalEarnings u, withdrawnAmount u)) us =
         map (\<lambda>u. (u_id u, totalEarnings u, withdrawnAmount u)) vs"
  using assms by (induction rule: list_all2_induct) (simp_all add: same_money_def)

lemma grows_extends:
  assumes "grows s s'"
  shows "extends_earnings s s'"
proof -
  from assms obtain us new where u: "users s' = us @ new"
    and l: "list_all2 same_money us (users s)" and n: "list_all new_account new"
    unfolding grows_def by blast
  show ?thesis
    unfolding extends_earnings_def earnings_columns_def u
    using same_money_columns [OF l] n
    by (intro exI [of _ "map (\<lambda>u. (u_id u, totalEarnings u, withdrawnAmount u)) new"])
       (auto simp: list_all_iff new_account_def)
qed

lemma deduct_columns:
  "map (\<lambda>u. (u_id u, totalEarnings u, withdrawnAmount u)) (map (deduct j a) us) =
   map (\<lambda>u. (u_id u, totalEarnings u, withdrawnAmount u)) us"
  by (induction us) (simp_all add: deduct_def)

lemma step_extends: "extends_earnings s (snd (step k sess r s))"
proof (cases "is_withdrawal r")
  case False
  then show ?thesis by (rule grows_extends [OF step_grows])
next
  case True
  then obtain b where r: "r = PostWithdrawal b"
    by (cases r) (simp_all add: is_withdrawal_def)
  obtain resp s' where st: "step k sess r s = (resp, s')" by (cases "step k sess r s")
  from withdrawal_users [OF st [unfolded r]]
  have "earnings_columns s' = earnings_columns s"
    by (auto simp: earnings_columns_def deduct_def)
  then show ?thesis by (simp add: st extends_earnings_def)
qed

lemma run_extends: "extends_earnings s (run cs s)"
proof (induction cs arbitrary: s)
  case Nil
  show ?case by (simp add: extends_refl)
next
  case (Cons c cs)
  obtain k sess r where c: "c = (k, sess, r)" by (cases c)
  from extends_trans [OF step_extends Cons.IH] show ?case by (simp add: c)
qed

text \<open>
  Claim C10. No call to any route changes a user's totalEarnings or withdrawnAmount:
  after every sequence of calls the two columns of the rows that were there are what
  they were, row by row, and the rows that were added have both at their default 0. The
  earnings statistics endpoint, when it answers 200, returns the constant cpm 2.50 and
  zero for the three revenue figures.
\<close>

theorem earnings_columns_never_written:
  "extends_earnings s (run cs s) \<and>
   (code (fst (step k sess GetEarningsStats s)) = 200 \<longrightarrow>
      (\<exists>v a. json (fst (step k sess GetEarningsStats s)) = EarningsStats v a (5 / 2) 0 0 0))"
proof
  show "extends_earnings s (run cs s)" by (rule run_extends)
  show "code (fst (step k sess GetEarningsStats s)) = 200 \<longrightarrow>
      (\<exists>v a. json (fst (step k sess GetEarningsStats s)) = EarningsStats v a (5 / 2) 0 0 0)"
    by (cases sess)
       (auto simp: step_def get_earnings_stats_def requireAuth_def handle_def bnd_def
          query_def await_def respond_def ret_def)
qed

theorem earnings_columns_never_written_witness:
  "earnings_columns (run [(None, None, signup),
                          (None, Some 1, PostWithdrawal (payout 20 wallet ''BEP20''))]
                      (ledger_db 50)) =
     earnings_columns (ledger_db 50) @ [(2, Some 0, Some 0)] \<and>
   fst (step None (Some 1) GetEarningsStats (ledger_db 50)) =
     \<lparr>code = 200, json = EarningsStats 0 0 (5 / 2) 0 0 0\<rparr>"
proof -
  let ?cs = "[(None, None, signup),
              (None, Some 1, PostWithdrawal (payout 20 wallet ''BEP20''))]"
  have e: "earnings_columns (run ?cs (ledger_db 50)) =
             earnings_columns (ledger_db 50) @ [(2, Some 0, Some 0)]"
    by (simp add: earnings_columns_def signup_def post_register_def insert_user_def
        toLowerCase_def bcrypt_hash_def truthy_def eval_defs)
  have g: "fst (step None (Some 1) GetEarningsStats (ledger_db 50)) =
             \<lparr>code = 200, json = EarningsStats 0 0 (5 / 2) 0 0 0\<rparr>"
    by (simp add: get_earnings_stats_def totalViews_def totalImpressions_def eval_defs)
  from earnings_columns_never_written [of "ledger_db 50" ?cs None "Some 1"] e g
  show ?thesis by simp
qed

text \<open>
  Claim C9, on the operation written from the specification. For every withdrawal
  request whose status is completed or rejected, a transition attempt is answered
  InvalidTransition and returns the database as it was, the request and the balance
  columns with it; and a transition that succeeds started from a pending request and
  ends in completed or rejected.
\<close>

theorem terminal_transition_rejected:
  assumes "find_withdrawal wid s = Some w"
    and "status w = ''completed'' \<or> status w = ''rejected''"
  shows "transition now wid body s = (Inl InvalidTransition, s) \<and>
         (transition now' wid' body' s0 = (Inr w', s') \<longrightarrow>
            (\<exists>w0. find_withdrawal wid' s0 = Some w0 \<and> status w0 = ''pending'') \<and>
            (status w' = ''completed'' \<or> status w' = ''rejected''))"
proof
  from assms show "transition now wid body s = (Inl InvalidTransition, s)"
    by (auto simp: transition_def)
  show "transition now' wid' body' s0 = (Inr w', s') \<longrightarrow>
            (\<exists>w0. find_withdrawal wid' s0 = Some w0 \<and> status w0 = ''pending'') \<and>
            (status w' = ''completed'' \<or> status w' = ''rejected'')"
  proof
    assume t: "transition now' wid' body' s0 = (Inr w', s')"
    then obtain w0 where w0: "find_withdrawal wid' s0 = Some w0"
      by (cases "find_withdrawal wid' s0") (auto simp: transition_def)
    from t w0 have p: "status w0 = ''pending''"
      by (auto simp: transition_def split: if_splits)
    from t w0 p have c: "t_status body' = ''completed'' \<or> t_status body' = ''rejected''"
      by (auto simp: transition_def split: if_splits)
    define g :: "withdrawal \<Rightarrow> withdrawal" where "g = (\<lambda>x. if w_id x = wid' then x\<lparr>status := t_status body'\<rparr> else x)"
    define h :: "withdrawal \<Rightarrow> withdrawal" where "h = (\<lambda>x. if w_id x = wid'
                            then x\<lparr>processedAt := Some now', txHash := t_txHash body',
                                   adminNotes := t_adminNotes body'\<rparr>
                            else x)"
    have idg: "w_id (g x) = w_id x" for x by (simp add: g_def)
    have idh: "w_id (h x) = w_id x" for x by (simp add: h_def)
    have fg: "find (\<lambda>x. w_id x = wid') (map h (map g (withdrawals s0))) =
                map_option h (map_option g (find (\<lambda>x. w_id x = wid') (withdrawals s0)))"
      by (simp only: find_map_same_id [where key = w_id and g = h, OF idh]
          find_map_same_id [where key = w_id and g = g, OF idg])
    from w0 have id: "w_id w0 = wid'"
      by (auto simp: find_withdrawal_def find_Some_iff)
    from t w0 p c obtain s1 where
      s1: "settleWithdrawal wid' (t_status body') s0 = Inr s1" and
      fw: "find_withdrawal wid' (s1\<lparr>withdrawals := map h (withdrawals s1)\<rparr>) = Some w'"
      unfolding transition_def h_def
      by (auto simp: Let_def split: if_splits sum.splits option.splits)
    from s1 w0 p c have ws1: "withdrawals s1 = map g (withdrawals s0)"
      unfolding settleWithdrawal_def g_def by (auto split: if_splits)
    have "find_withdrawal wid' (s1\<lparr>withdrawals := map h (withdrawals s1)\<rparr>) =
            find (\<lambda>x. w_id x = wid') (map h (map g (withdrawals s0)))"
      unfolding ws1 [symmetric] by (simp add: find_withdrawal_def)
    with fw fg w0 have "w' = h (g w0)"
      by (simp add: find_withdrawal_def)
    with c id have "status w' = ''completed'' \<or> status w' = ''rejected''"
      by (auto simp: g_def h_def)
    with w0 p show "(\<exists>w0. find_withdrawal wid' s0 = Some w0 \<and> status w0 = ''pending'') \<and>
            (status w' = ''completed'' \<or> status w' = ''rejected'')" by simp
  qed
qed

theorem terminal_transition_rejected_witness:
  "find_withdrawal 1 paid_out = Some ((payout_row 20 wallet ''BEP20'')\<lparr>status := ''completed''\<rparr>) \<and>
   status ((payout_row 20 wallet ''BEP20'')\<lparr>status := ''completed''\<rparr>) = ''completed'' \<and>
   transition 7 1 approve paid_out = (Inl InvalidTransition, paid_out) \<and>
   transition 7 1 approve (db_after 50 30 20 wallet ''BEP20'') =
     (Inr ((payout_row 20 wallet ''BEP20'')
             \<lparr>status := ''completed'', txHash := Some ''0xabc'', processedAt := Some 7\<rparr>),
      (db_after 50 30 20 wallet ''BEP20'')
        \<lparr>users := [(creator_after 50 30)\<lparr>withdrawnAmount := Some 20\<rparr>],
         withdrawals := [(payout_row 20 wallet ''BEP20'')
             \<lparr>status := ''completed'', txHash := Some ''0xabc'', processedAt := Some 7\<rparr>]\<rparr>)"
proof -
  have f: "find_withdrawal 1 paid_out =
             Some ((payout_row 20 wallet ''BEP20'')\<lparr>status := ''completed''\<rparr>)"
    by (simp add: find_withdrawal_def paid_out_def eval_defs)
  have c: "status ((payout_row 20 wallet ''BEP20'')\<lparr>status := ''completed''\<rparr>) = ''completed'' \<or>
           status ((payout_row 20 wallet ''BEP20'')\<lparr>status := ''completed''\<rparr>) = ''rejected''"
    by simp
  have t: "transition 7 1 approve (db_after 50 30 20 wallet ''BEP20'') =
     (Inr ((payout_row 20 wallet ''BEP20'')
             \<lparr>status := ''completed'', txHash := Some ''0xabc'', processedAt := Some 7\<rparr>),
      (db_after 50 30 20 wallet ''BEP20'')
        \<lparr>users := [(creator_after 50 30)\<lparr>withdrawnAmount := Some 20\<rparr>],
         withdrawals := [(payout_row 20 wallet ''BEP20'')
             \<lparr>status := ''completed'', txHash := Some ''0xabc'', processedAt := Some 7\<rparr>]\<rparr>)"
    by (simp add: transition_def settleWithdrawal_def find_withdrawal_def approve_def eval_defs)
  from terminal_transition_rejected [OF f c, of 7 approve] f t show ?thesis by simp
qed

end
